theory Spec2Isabelle
  imports Complex_Main
begin

section \<open>Values, dictionaries and the bus monitor\<close>

text \<open>
  The delegates of \<^verbatim>\<open>delegates.py\<close> read device values through a bus monitor, read and
  write the per-tick dictionary \<^verbatim>\<open>newvalues\<close> and publish on the system service
  \<^verbatim>\<open>self._dbusservice\<close>. Numbers on the bus (Python ints and floats, compared by value)
  are reals here, and a product of floats is rounded as Python rounds it; service names
  are strings. Python's \<^verbatim>\<open>None\<close> is \<open>None\<close>.
\<close>

datatype pyval = Num real | Str string

text \<open>
  A Python dict whose values may be \<^verbatim>\<open>None\<close>: a key that is present and holds
  \<^verbatim>\<open>None\<close> maps to \<open>Some None\<close>. \<^verbatim>\<open>d.get(k)\<close> cannot tell the two apart.
\<close>

type_synonym pydict = "string \<rightharpoonup> pyval option"

definition dict_get :: "pydict \<Rightarrow> string \<Rightarrow> pyval option" where
  "dict_get d k = (case d k of None \<Rightarrow> None | Some v \<Rightarrow> v)"

datatype py_error = IndexError | TypeError | ValueError | AttributeError | BusError

text \<open>
  An item of the monitor: \<^verbatim>\<open>get_value()\<close> returns the cached value, \<^verbatim>\<open>set_value(v)\<close>
  calls the owner of the item and raises \<^verbatim>\<open>DBusException\<close> when that call fails.
\<close>

record dbus_item =
  item_value :: "real option"
  set_value_raises :: bool

text \<open>
  The bus monitor is not part of the delegates' source: its two lookups are parameters.
  The service argument is whatever the caller passes, \<^verbatim>\<open>None\<close> included.
\<close>

record dbusmonitor =
  get_value :: "pyval option \<Rightarrow> string \<Rightarrow> real option"
  get_item :: "pyval option \<Rightarrow> string \<Rightarrow> dbus_item option"

section \<open>HubTypeSelect\<close>

definition HubTypeSelect_update_values :: "dbusmonitor \<Rightarrow> pydict \<Rightarrow> pydict" where
  "HubTypeSelect_update_values mon newvalues =
     (let vebus_path = dict_get newvalues ''/VebusService'';
          hub =
            (if get_value mon vebus_path ''/Hub4/AcPowerSetpoint'' \<noteq> None then Some (Num 4)
             else if get_value mon vebus_path ''/Hub1/ChargeVoltage'' \<noteq> None
                     \<or> dict_get newvalues ''/Dc/Pv/Power'' \<noteq> None then Some (Num 1)
             else if dict_get newvalues ''/Ac/PvOnOutput/Total/Power'' \<noteq> None then Some (Num 2)
             else if dict_get newvalues ''/Ac/PvOnGrid/Total/Power'' \<noteq> None
                     \<or> dict_get newvalues ''/Ac/PvOnGenset/Total/Power'' \<noteq> None then Some (Num 3)
             else None)
      in newvalues(''/Hub'' \<mapsto> hub))"

section \<open>Service names, outcomes of a call, bus writes\<close>

text \<open>
  \<^verbatim>\<open>service.split('.')\<close>: the pieces between the dots, an empty string giving one empty
  piece. \<^verbatim>\<open>service.split('.')[2]\<close> raises \<^verbatim>\<open>IndexError\<close> when there are fewer than
  three pieces.
\<close>

fun split_on :: "char \<Rightarrow> string \<Rightarrow> string list" where
  "split_on c [] = [[]]"
| "split_on c (x # xs) =
     (if x = c then [] # split_on c xs
      else (case split_on c xs of [] \<Rightarrow> [[x]] | y # ys \<Rightarrow> (x # y) # ys))"

definition service_type :: "string \<Rightarrow> py_error + string" where
  "service_type service =
     (let parts = split_on CHR ''.'' service
      in if 2 < length parts then Inr (parts ! 2) else Inl IndexError)"

text \<open>
  A successful \<^verbatim>\<open>item.set_value(v)\<close> on the item of a service and path.
\<close>

datatype bus_write = SetValue "pyval option" string real

text \<open>
  What a call leaves behind: the object's state when the call ends, the bus writes it made,
  and the exception that left the call, if one did. Python keeps every assignment made
  before a raise, so the state is given in both cases.
\<close>

record 'st outcome =
  after :: 'st
  writes :: "bus_write list"
  raised :: "py_error option"

definition returns :: "'st \<Rightarrow> 'st outcome" where
  "returns st = \<lparr>after = st, writes = [], raised = None\<rparr>"

definition raises :: "py_error \<Rightarrow> 'st \<Rightarrow> 'st outcome" where
  "raises e st = \<lparr>after = st, writes = [], raised = Some e\<rparr>"

section \<open>The timer service\<close>

text \<open>
  Modelled from the spec: the timer service (\<^verbatim>\<open>gobject.timeout_add\<close>,
  \<^verbatim>\<open>gobject.source_remove\<close>), which is a library outside the repository.
  \<^verbatim>\<open>schedule_repeating(interval, callback)\<close> returns a handle, \<^verbatim>\<open>cancel(handle)\<close> removes
  the timer. The loop holds its active timers as (handle, interval in ms, callback) and
  hands out handles from a counter, so a handle is never given twice.
\<close>

datatype callback =
  Hub1Bridge_on_timer | BuzzerControl_on_timer | Other_callback nat

record mainloop =
  next_source :: nat
  sources :: "(nat \<times> nat \<times> callback) list"

definition timeout_add :: "nat \<Rightarrow> callback \<Rightarrow> mainloop \<Rightarrow> nat \<times> mainloop" where
  "timeout_add interval cb ml =
     (next_source ml,
      ml\<lparr>next_source := Suc (next_source ml),
         sources := sources ml @ [(next_source ml, interval, cb)]\<rparr>)"

definition source_remove :: "nat \<Rightarrow> mainloop \<Rightarrow> mainloop" where
  "source_remove h ml = ml\<lparr>sources := filter (\<lambda>src. fst src \<noteq> h) (sources ml)\<rparr>"

definition timers_of :: "callback \<Rightarrow> mainloop \<Rightarrow> (nat \<times> nat) list" where
  "timers_of cb ml = map (\<lambda>src. (fst src, fst (snd src))) (filter (\<lambda>src. snd (snd src) = cb) (sources ml))"

definition fresh_handles :: "mainloop \<Rightarrow> bool" where
  "fresh_handles ml = list_all (\<lambda>src. fst src < next_source ml) (sources ml)"

section \<open>ServiceSupervisor\<close>

record supervisor =
  supervised :: "string set"
  busy :: "string set"

text \<open>
  \<^verbatim>\<open>__init__\<close> also asks the main loop to run \<^verbatim>\<open>_process_supervised\<close> every 60 s.
\<close>

definition ServiceSupervisor_init :: supervisor where
  "ServiceSupervisor_init = \<lparr>supervised = {}, busy = {}\<rparr>"

definition ServiceSupervisor_device_added :: "string \<Rightarrow> supervisor \<Rightarrow> supervisor outcome" where
  "ServiceSupervisor_device_added service st =
     (case service_type service of
        Inl e \<Rightarrow> raises e st
      | Inr t \<Rightarrow>
          if t = ''battery'' \<or> t = ''solarcharger''
          then returns (st\<lparr>supervised := insert service (supervised st)\<rparr>)
          else returns st)"

definition ServiceSupervisor_device_removed :: "string \<Rightarrow> supervisor \<Rightarrow> supervisor" where
  "ServiceSupervisor_device_removed service st =
     st\<lparr>supervised := supervised st - {service}, busy := busy st - {service}\<rparr>"

definition is_busy :: "supervisor \<Rightarrow> string \<Rightarrow> bool" where
  "is_busy st service \<longleftrightarrow> service \<in> busy st"

text \<open>
  \<^verbatim>\<open>_process_supervised\<close>: the loop over \<^verbatim>\<open>self._supervised\<close>. A Python set is walked in
  an order of its own, given here as the list \<open>order\<close>. Each round adds the service to the
  busy set and then hands the asynchronous \<^verbatim>\<open>GetValue\<close> call to the bus; the second
  component collects the services called, in order. No reply is handled inside the
  loop: the callbacks run later, from the main loop.
\<close>

fun process_loop :: "string list \<Rightarrow> supervisor \<times> string list \<Rightarrow> supervisor \<times> string list" where
  "process_loop [] acc = acc"
| "process_loop (service # rest) (st, calls) =
     process_loop rest (st\<lparr>busy := insert service (busy st)\<rparr>, calls @ [service])"

definition ServiceSupervisor_process_supervised ::
  "string list \<Rightarrow> supervisor \<Rightarrow> supervisor \<times> string list" where
  "ServiceSupervisor_process_supervised order st = process_loop order (st, [])"

definition ServiceSupervisor_supervise_success :: "string \<Rightarrow> supervisor \<Rightarrow> supervisor" where
  "ServiceSupervisor_supervise_success service st = st\<lparr>busy := busy st - {service}\<rparr>"

text \<open>
  \<^verbatim>\<open>_supervise_failed\<close>. The blocking \<^verbatim>\<open>GetConnectionUnixProcessID\<close> call answers with a
  process id (or \<^verbatim>\<open>None\<close>) or raises \<^verbatim>\<open>DBusException\<close>; \<^verbatim>\<open>os.kill\<close> may raise
  \<^verbatim>\<open>OSError\<close>. Both exceptions are caught by the handler. What the handler does is listed
  in order.
\<close>

datatype 'a reply = Reply 'a | DBusException

datatype action =
  LogInfo string | LogError string | LookupPid string | Kill int | PrintExc

definition NoReply :: string where
  "NoReply = ''org.freedesktop.DBus.Error.NoReply''"

definition ServiceSupervisor_supervise_failed ::
  "string \<Rightarrow> string \<Rightarrow> int option reply \<Rightarrow> bool \<Rightarrow> supervisor \<Rightarrow> supervisor \<times> action list" where
  "ServiceSupervisor_supervise_failed service error_name pid_reply kill_raises st =
     (let st' = st\<lparr>busy := busy st - {service}\<rparr>
      in if error_name \<noteq> NoReply then (st', [LogInfo service])
         else (case pid_reply of
                 DBusException \<Rightarrow> (st', [LogError service, LookupPid service, PrintExc])
               | Reply None \<Rightarrow> (st', [LogError service, LookupPid service])
               | Reply (Some pid) \<Rightarrow>
                   if pid > 1
                   then (st', [LogError service, LookupPid service, LogError service, Kill pid]
                              @ (if kill_raises then [PrintExc] else []))
                   else (st', [LogError service, LookupPid service])))"

text \<open>
  The supervisor as a machine: what the host, the 60 s timer and the bus can make it do.
  A pass is enabled with an order that lists the supervised set.
\<close>

datatype sup_event =
  DeviceAdded string
| DeviceRemoved string
| ProcessSupervised "string list"
| SuperviseSuccess string
| SuperviseFailed string string "int option reply" bool

fun sup_step :: "supervisor \<Rightarrow> sup_event \<Rightarrow> supervisor" where
  "sup_step st (DeviceAdded s) = after (ServiceSupervisor_device_added s st)"
| "sup_step st (DeviceRemoved s) = ServiceSupervisor_device_removed s st"
| "sup_step st (ProcessSupervised order) = fst (ServiceSupervisor_process_supervised order st)"
| "sup_step st (SuperviseSuccess s) = ServiceSupervisor_supervise_success s st"
| "sup_step st (SuperviseFailed s e r k) = fst (ServiceSupervisor_supervise_failed s e r k st)"

fun sup_enabled :: "supervisor \<Rightarrow> sup_event \<Rightarrow> bool" where
  "sup_enabled st (ProcessSupervised order) \<longleftrightarrow> set order = supervised st \<and> distinct order"
| "sup_enabled st _ \<longleftrightarrow> True"

fun sup_run :: "supervisor \<Rightarrow> sup_event list \<Rightarrow> supervisor" where
  "sup_run st [] = st"
| "sup_run st (e # es) = sup_run (sup_step st e) es"

fun sup_valid :: "supervisor \<Rightarrow> sup_event list \<Rightarrow> bool" where
  "sup_valid st [] \<longleftrightarrow> True"
| "sup_valid st (e # es) \<longleftrightarrow> sup_enabled st e \<and> sup_valid (sup_step st e) es"

text \<open>An event that takes \<open>s\<close> out of the busy set: a completion callback for \<open>s\<close>.\<close>

fun completes :: "string \<Rightarrow> sup_event \<Rightarrow> bool" where
  "completes s (SuperviseSuccess s') \<longleftrightarrow> s' = s"
| "completes s (SuperviseFailed s' e r k) \<longleftrightarrow> s' = s"
| "completes s _ \<longleftrightarrow> False"

fun stays_supervised :: "string \<Rightarrow> supervisor \<Rightarrow> sup_event list \<Rightarrow> bool" where
  "stays_supervised s st [] \<longleftrightarrow> s \<in> supervised st"
| "stays_supervised s st (e # es) \<longleftrightarrow> s \<in> supervised st \<and> stays_supervised s (sup_step st e) es"

section \<open>LgCircuitBreakerDetect\<close>

text \<open>
  \<^verbatim>\<open>self._lg_battery\<close>, \<^verbatim>\<open>self._lg_voltage_buffer\<close> (which \<^verbatim>\<open>__init__\<close> does not create and
  \<^verbatim>\<open>device_removed\<close> sets to \<^verbatim>\<open>None\<close>: both are \<open>None\<close> here) and the system service the
  delegate publishes on.
\<close>

record lg_state =
  lg_battery :: "string option"
  lg_voltage_buffer :: "real list option"
  dbusservice :: pydict

definition alarm_path :: string where
  "alarm_path = ''/Dc/Battery/Alarms/CircuitBreakerTripped''"

text \<open>\<^verbatim>\<open>__init__\<close> followed by \<^verbatim>\<open>set_sources\<close>, which adds the alarm path with value \<^verbatim>\<open>None\<close>.\<close>

definition LgCircuitBreakerDetect_set_sources :: "pydict \<Rightarrow> lg_state" where
  "LgCircuitBreakerDetect_set_sources service =
     \<lparr>lg_battery = None, lg_voltage_buffer = None, dbusservice = service(alarm_path \<mapsto> None)\<rparr>"

definition LgCircuitBreakerDetect_device_added ::
  "dbusmonitor \<Rightarrow> string \<Rightarrow> lg_state \<Rightarrow> lg_state outcome" where
  "LgCircuitBreakerDetect_device_added mon service st =
     (case service_type service of
        Inl e \<Rightarrow> raises e st
      | Inr t \<Rightarrow>
          if t = ''battery'' \<and> get_value mon (Some (Str service)) ''/ProductId'' = Some 0xB004
          then returns (st\<lparr>lg_battery := Some service,
                            lg_voltage_buffer := Some [],
                            dbusservice := (dbusservice st)(alarm_path \<mapsto> Some (Num 0))\<rparr>)
          else returns st)"

definition LgCircuitBreakerDetect_device_removed :: "string \<Rightarrow> lg_state \<Rightarrow> lg_state" where
  "LgCircuitBreakerDetect_device_removed service st =
     (if Some service = lg_battery st
      then st\<lparr>lg_battery := None,
              lg_voltage_buffer := None,
              dbusservice := (dbusservice st)(alarm_path \<mapsto> None)\<rparr>
      else st)"

text \<open>
  \<^verbatim>\<open>min(xs)\<close> and \<^verbatim>\<open>max(xs)\<close> of a Python list; both raise \<^verbatim>\<open>ValueError\<close> on an empty
  list.
\<close>

definition py_min :: "real list \<Rightarrow> py_error + real" where
  "py_min xs = (case xs of [] \<Rightarrow> Inl ValueError | x # rest \<Rightarrow> Inr (fold min rest x))"

definition py_max :: "real list \<Rightarrow> py_error + real" where
  "py_max xs = (case xs of [] \<Rightarrow> Inl ValueError | x # rest \<Rightarrow> Inr (fold max rest x))"

text \<open>
  Lines 354 to 357 of \<^verbatim>\<open>update_values\<close>: the buffer is emptied when it holds a sample, and
  the call returns. \<^verbatim>\<open>len(None)\<close> raises \<^verbatim>\<open>TypeError\<close>.
\<close>

definition lg_reset :: "lg_state \<Rightarrow> lg_state outcome" where
  "lg_reset st =
     (case lg_voltage_buffer st of
        None \<Rightarrow> raises TypeError st
      | Some buf \<Rightarrow> if length buf > 0 then returns (st\<lparr>lg_voltage_buffer := Some []\<rparr>) else returns st)"

text \<open>
  \<^verbatim>\<open>xs[-40:]\<close>: the last 40 entries of a list, all of it when it has no more than 40.
\<close>

definition last40 :: "real list \<Rightarrow> real list" where
  "last40 xs = drop (length xs - 40) xs"

text \<open>
  Python's floats are IEEE 754 doubles: a literal and a product are rounded to the nearest
  number with a 53-bit significand, a tie going to the even one. \<open>pow2 e\<close> is 2 to the
  power \<open>e\<close>; \<open>double_round x\<close> rounds in the binade of \<open>x\<close>, with the spacing of the
  subnormal numbers below the smallest normal one. A product too large for a double, where
  Python gives \<^verbatim>\<open>inf\<close>, rounds here to a real that is at least \<open>2 ^ 1024\<close> in magnitude,
  beyond every double, so comparing a double with it gives what comparing with \<^verbatim>\<open>inf\<close>
  gives. Comparing two doubles is comparing them as reals.
\<close>

definition pow2 :: "int \<Rightarrow> real" where
  "pow2 e = (if 0 \<le> e then 2 ^ nat e else 1 / 2 ^ nat (- e))"

definition round_half_even :: "real \<Rightarrow> int" where
  "round_half_even q =
     (let f = \<lfloor>q\<rfloor>; r = q - of_int f
      in if r < 1 / 2 then f else if 1 / 2 < r then f + 1 else if even f then f else f + 1)"

definition double_round :: "real \<Rightarrow> real" where
  "double_round x =
     (if x = 0 then 0
      else (let e = max \<lfloor>log 2 \<bar>x\<bar>\<rfloor> (- 1022); u = pow2 (e - 52)
            in of_int (round_half_even (x / u)) * u))"

text \<open>\<^verbatim>\<open>a * b\<close> on two floats.\<close>

definition float_mul :: "real \<Rightarrow> real \<Rightarrow> real" where
  "float_mul a b = double_round (a * b)"

text \<open>
  Lines 366 to 378 of \<^verbatim>\<open>update_values\<close>, on the buffer the object holds by then.
  \<^verbatim>\<open>0.9 * None\<close> raises \<^verbatim>\<open>TypeError\<close>, as does \<^verbatim>\<open>min(None)\<close>; a \<^verbatim>\<open>DBusException\<close>
  of \<^verbatim>\<open>item.set_value\<close> is not caught in this method. The two thresholds are the
  float products of line 370: the literals \<^verbatim>\<open>0.9\<close> and \<^verbatim>\<open>1.1\<close> as doubles, times the
  battery's voltage, rounded.
\<close>

definition lg_evaluate :: "dbusmonitor \<Rightarrow> pyval option \<Rightarrow> string \<Rightarrow> lg_state \<Rightarrow> lg_state outcome" where
  "lg_evaluate mon vebus_path battery st =
     (case lg_voltage_buffer st of
        None \<Rightarrow> raises TypeError st
      | Some w \<Rightarrow>
     (case py_min w of
        Inl e \<Rightarrow> raises e st
      | Inr min_voltage \<Rightarrow>
     (case py_max w of
        Inl e \<Rightarrow> raises e st
      | Inr max_voltage \<Rightarrow>
     (case get_value mon (Some (Str battery)) ''/Dc/0/Voltage'' of
        None \<Rightarrow> raises TypeError st
      | Some battery_voltage \<Rightarrow>
          if min_voltage < float_mul (double_round 0.9) battery_voltage
             \<or> max_voltage > float_mul (double_round 1.1) battery_voltage
          then (case get_item mon vebus_path ''/Mode'' of
                  None \<Rightarrow> returns st
                | Some item \<Rightarrow>
                    let st2 = st\<lparr>dbusservice := (dbusservice st)(alarm_path \<mapsto> Some (Num 2))\<rparr>
                    in if set_value_raises item then raises BusError st2
                       else \<lparr>after = st2\<lparr>lg_voltage_buffer := Some []\<rparr>,
                             writes = [SetValue vebus_path ''/Mode'' 4],
                             raised = None\<rparr>)
          else returns st))))"

definition LgCircuitBreakerDetect_update_values ::
  "dbusmonitor \<Rightarrow> pydict \<Rightarrow> lg_state \<Rightarrow> lg_state outcome" where
  "LgCircuitBreakerDetect_update_values mon newvalues st =
     (let vebus_path = dict_get newvalues ''/VebusService''
      in case lg_battery st of
           None \<Rightarrow> returns st
         | Some battery \<Rightarrow>
             if vebus_path = None then returns st
             else (case get_value mon (Some (Str battery)) ''/Dc/0/Current'' of
                     None \<Rightarrow> lg_reset st
                   | Some battery_current \<Rightarrow>
                       if \<bar>battery_current\<bar> > 0.01 then lg_reset st
                       else (case get_value mon vebus_path ''/Dc/0/Voltage'' of
                               None \<Rightarrow> returns st
                             | Some vebus_voltage \<Rightarrow>
                                 (case lg_voltage_buffer st of
                                    None \<Rightarrow> raises AttributeError st
                                  | Some buf \<Rightarrow>
                                      let buf1 = buf @ [vebus_voltage]
                                      in if length buf1 > 40
                                         then lg_evaluate mon vebus_path battery
                                                (st\<lparr>lg_voltage_buffer := Some (last40 buf1)\<rparr>)
                                         else if length buf1 < 20
                                         then returns (st\<lparr>lg_voltage_buffer := Some buf1\<rparr>)
                                         else lg_evaluate mon vebus_path battery
                                                (st\<lparr>lg_voltage_buffer := Some buf1\<rparr>)))))"

text \<open>
  The monitor as a machine. The bus monitor and the snapshot differ from call to call, so
  every event carries its own.
\<close>

datatype lg_event =
  LgDeviceAdded dbusmonitor string
| LgDeviceRemoved string
| LgUpdateValues dbusmonitor pydict

fun lg_step :: "lg_state \<Rightarrow> lg_event \<Rightarrow> lg_state" where
  "lg_step st (LgDeviceAdded mon s) = after (LgCircuitBreakerDetect_device_added mon s st)"
| "lg_step st (LgDeviceRemoved s) = LgCircuitBreakerDetect_device_removed s st"
| "lg_step st (LgUpdateValues mon nv) = after (LgCircuitBreakerDetect_update_values mon nv st)"

fun lg_run :: "lg_state \<Rightarrow> lg_event list \<Rightarrow> lg_state" where
  "lg_run st [] = st"
| "lg_run st (e # es) = lg_run (lg_step st e) es"

text \<open>
  The alarm of one tick: value 2 published, the inverter's mode set to 4, the window
  emptied. A tick without alarm writes nothing to the bus.
\<close>

definition alarm_fired :: "pyval option \<Rightarrow> lg_state outcome \<Rightarrow> bool" where
  "alarm_fired vebus_path out \<longleftrightarrow>
     writes out = [SetValue vebus_path ''/Mode'' 4]
     \<and> dbusservice (after out) alarm_path = Some (Some (Num 2))
     \<and> lg_voltage_buffer (after out) = Some []"

text \<open>
  Two properties of a state: the window holds at most 40 samples; the alarm path exists and
  its value is not \<^verbatim>\<open>None\<close> exactly when a battery is tracked.
\<close>

definition window_bounded :: "lg_state \<Rightarrow> bool" where
  "window_bounded st \<longleftrightarrow> (case lg_voltage_buffer st of None \<Rightarrow> True | Some buf \<Rightarrow> length buf \<le> 40)"

definition alarm_tracks_battery :: "lg_state \<Rightarrow> bool" where
  "alarm_tracks_battery st \<longleftrightarrow>
     alarm_path \<in> dom (dbusservice st)
     \<and> (dict_get (dbusservice st) alarm_path \<noteq> None \<longleftrightarrow> lg_battery st \<noteq> None)"

section \<open>Hub1Bridge\<close>

text \<open>
  \<^verbatim>\<open>self._solarchargers\<close>, \<^verbatim>\<open>self._timer\<close> and the main loop the timer lives in.
\<close>

record hub1_state =
  solarchargers :: "string list"
  hub1_timer :: "nat option"
  hub1_loop :: mainloop

definition Hub1Bridge_init :: "mainloop \<Rightarrow> hub1_state" where
  "Hub1Bridge_init ml = \<lparr>solarchargers = [], hub1_timer = None, hub1_loop = ml\<rparr>"

text \<open>
  \<^verbatim>\<open>_get_vebus_path()\<close> without argument: \<^verbatim>\<open>None\<close> when the system service has no
  \<^verbatim>\<open>/VebusService\<close> path, its value otherwise.
\<close>

definition get_vebus_path :: "pydict \<Rightarrow> pyval option" where
  "get_vebus_path service =
     (case service ''/VebusService'' of None \<Rightarrow> None | Some v \<Rightarrow> v)"

text \<open>
  The body of the \<^verbatim>\<open>try\<close> in \<^verbatim>\<open>_update_solarchargers\<close>, for one charger: the writes made,
  and the exception that leaves the \<^verbatim>\<open>try\<close>, if any. A \<^verbatim>\<open>DBusException\<close> of
  \<^verbatim>\<open>set_value\<close> is caught and ends the work on this charger. Calling a method of
  \<^verbatim>\<open>None\<close>, should the monitor hold no item, raises \<^verbatim>\<open>AttributeError\<close>, which is not
  caught. \<^verbatim>\<open>firmware_version & 0x0FFF\<close> is the remainder modulo 4096.
\<close>

definition update_charger ::
  "dbusmonitor \<Rightarrow> real \<Rightarrow> real option \<Rightarrow> string \<Rightarrow> bus_write list \<times> py_error option" where
  "update_charger mon charge_voltage state service =
     (let svc = Some (Str service)
      in case get_item mon svc ''/Link/NetworkMode'' of
           None \<Rightarrow> ([], Some AttributeError)
         | Some network_mode_item \<Rightarrow>
             if item_value network_mode_item = None then ([], None)
             else if set_value_raises network_mode_item then ([], None)
             else (case get_item mon svc ''/Link/ChargeVoltage'' of
                     None \<Rightarrow> ([SetValue svc ''/Link/NetworkMode'' 5], Some AttributeError)
                   | Some charge_voltage_item \<Rightarrow>
                       if set_value_raises charge_voltage_item
                       then ([SetValue svc ''/Link/NetworkMode'' 5], None)
                       else (let w2 = [SetValue svc ''/Link/NetworkMode'' 5,
                                       SetValue svc ''/Link/ChargeVoltage'' charge_voltage]
                             in case state of
                                  None \<Rightarrow> (w2, None)
                                | Some inverter_state \<Rightarrow>
                                    (case get_value mon svc ''/FirmwareVersion'' of
                                       None \<Rightarrow> (w2, None)
                                     | Some firmware_version \<Rightarrow>
                                         if \<lfloor>firmware_version\<rfloor> mod 4096 = 0x0117
                                         then (case get_item mon svc ''/State'' of
                                                 None \<Rightarrow> (w2, Some AttributeError)
                                               | Some state_item \<Rightarrow>
                                                   if set_value_raises state_item then (w2, None)
                                                   else (w2 @ [SetValue svc ''/State'' inverter_state], None))
                                         else (w2, None)))))"

text \<open>The loop over \<^verbatim>\<open>self._solarchargers\<close>; a charger the supervisor is probing is skipped.\<close>

fun update_loop ::
  "dbusmonitor \<Rightarrow> supervisor \<Rightarrow> real \<Rightarrow> real option \<Rightarrow> string list
     \<Rightarrow> bus_write list \<times> py_error option" where
  "update_loop mon spv charge_voltage state [] = ([], None)"
| "update_loop mon spv charge_voltage state (service # rest) =
     (if is_busy spv service then update_loop mon spv charge_voltage state rest
      else (case update_charger mon charge_voltage state service of
              (ws, Some e) \<Rightarrow> (ws, Some e)
            | (ws, None) \<Rightarrow>
                (case update_loop mon spv charge_voltage state rest of
                   (ws', r) \<Rightarrow> (ws @ ws', r))))"

definition Hub1Bridge_update_solarchargers ::
  "dbusmonitor \<Rightarrow> pydict \<Rightarrow> supervisor \<Rightarrow> hub1_state \<Rightarrow> bus_write list \<times> py_error option" where
  "Hub1Bridge_update_solarchargers mon service spv st =
     (case get_vebus_path service of
        None \<Rightarrow> ([], None)
      | Some vebus_path \<Rightarrow>
          (case get_value mon (Some vebus_path) ''/Hub1/ChargeVoltage'' of
             None \<Rightarrow> ([], None)
           | Some charge_voltage \<Rightarrow>
               update_loop mon spv charge_voltage
                 (get_value mon (Some vebus_path) ''/State'') (solarchargers st)))"

definition Hub1Bridge_device_added ::
  "dbusmonitor \<Rightarrow> pydict \<Rightarrow> supervisor \<Rightarrow> string \<Rightarrow> hub1_state \<Rightarrow> hub1_state outcome" where
  "Hub1Bridge_device_added mon service_obj spv service st =
     (case service_type service of
        Inl e \<Rightarrow> raises e st
      | Inr t \<Rightarrow>
          if t \<noteq> ''solarcharger'' then returns st
          else (let st1 = st\<lparr>solarchargers := solarchargers st @ [service]\<rparr>
                in case Hub1Bridge_update_solarchargers mon service_obj spv st1 of
                     (ws, Some e) \<Rightarrow> \<lparr>after = st1, writes = ws, raised = Some e\<rparr>
                   | (ws, None) \<Rightarrow>
                       if hub1_timer st1 = None
                       then (case timeout_add 10000 Hub1Bridge_on_timer (hub1_loop st1) of
                               (h, ml) \<Rightarrow>
                                 \<lparr>after = st1\<lparr>hub1_timer := Some h, hub1_loop := ml\<rparr>,
                                  writes = ws, raised = None\<rparr>)
                       else \<lparr>after = st1, writes = ws, raised = None\<rparr>))"

definition Hub1Bridge_device_removed :: "string \<Rightarrow> hub1_state \<Rightarrow> hub1_state" where
  "Hub1Bridge_device_removed service st =
     (if service \<in> set (solarchargers st)
      then (let st1 = st\<lparr>solarchargers := remove1 service (solarchargers st)\<rparr>
            in case hub1_timer st1 of
                 None \<Rightarrow> st1
               | Some h \<Rightarrow>
                   if length (solarchargers st1) = 0
                   then st1\<lparr>hub1_loop := source_remove h (hub1_loop st1), hub1_timer := None\<rparr>
                   else st1)
      else st)"

text \<open>
  The timer exists exactly when a charger is known; the main loop holds that timer, with a
  period of 10 s, and no other timer of the bridge.
\<close>

definition timer_iff_charger :: "hub1_state \<Rightarrow> bool" where
  "timer_iff_charger st \<longleftrightarrow>
     (hub1_timer st \<noteq> None \<longleftrightarrow> solarchargers st \<noteq> [])
     \<and> timers_of Hub1Bridge_on_timer (hub1_loop st)
         = (case hub1_timer st of None \<Rightarrow> [] | Some h \<Rightarrow> [(h, 10000)])
     \<and> fresh_handles (hub1_loop st)"

text \<open>The bridge as a machine, each appearing device with the surroundings of its call.\<close>

datatype hub1_event =
  Hub1Added dbusmonitor pydict supervisor string
| Hub1Removed string

fun hub1_step :: "hub1_state \<Rightarrow> hub1_event \<Rightarrow> hub1_state" where
  "hub1_step st (Hub1Added mon service_obj spv s) = after (Hub1Bridge_device_added mon service_obj spv s st)"
| "hub1_step st (Hub1Removed s) = Hub1Bridge_device_removed s st"

fun hub1_run :: "hub1_state \<Rightarrow> hub1_event list \<Rightarrow> hub1_state" where
  "hub1_run st [] = st"
| "hub1_run st (e # es) = hub1_run (hub1_step st e) es"

text \<open>
  Every \<^verbatim>\<open>device_added\<close> of the run returns, or stops at the service name with
  \<^verbatim>\<open>IndexError\<close>.
\<close>

fun hub1_calls_return :: "hub1_state \<Rightarrow> hub1_event list \<Rightarrow> bool" where
  "hub1_calls_return st [] \<longleftrightarrow> True"
| "hub1_calls_return st (Hub1Added mon service_obj spv s # es) \<longleftrightarrow>
     (raised (Hub1Bridge_device_added mon service_obj spv s st) = None
      \<or> raised (Hub1Bridge_device_added mon service_obj spv s st) = Some IndexError)
     \<and> hub1_calls_return (after (Hub1Bridge_device_added mon service_obj spv s st)) es"
| "hub1_calls_return st (Hub1Removed s # es) \<longleftrightarrow>
     hub1_calls_return (Hub1Bridge_device_removed s st) es"

section \<open>BuzzerControl\<close>

text \<open>
  \<^verbatim>\<open>self._buzzer_on\<close>, \<^verbatim>\<open>self._timer\<close>, the main loop, and what the file at \<^verbatim>\<open>self._path\<close>
  holds. \<^verbatim>\<open>set_sources\<close> creates them when a buzzer is found (the list of gpio paths is not
  empty), and registers \<^verbatim>\<open>/Buzzer/State\<close> with the callback below.
\<close>

record buzzer_state =
  buzzer_on :: bool
  buzzer_timer :: "nat option"
  buzzer_loop :: mainloop
  buzzer_file :: string

definition BuzzerControl_set_sources :: "string list \<Rightarrow> mainloop \<Rightarrow> string \<Rightarrow> buzzer_state option" where
  "BuzzerControl_set_sources paths ml content =
     (if length paths = 0 then None
      else Some \<lparr>buzzer_on = False, buzzer_timer = None, buzzer_loop = ml, buzzer_file = content\<rparr>)"

text \<open>
  \<^verbatim>\<open>_set_buzzer(on)\<close>. Whether the file can be opened and written is the system's choice,
  \<open>ok\<close>; an \<^verbatim>\<open>IOError\<close> is caught, the file and \<^verbatim>\<open>self._buzzer_on\<close> stay as they were.
\<close>

definition BuzzerControl_set_buzzer :: "bool \<Rightarrow> bool \<Rightarrow> buzzer_state \<Rightarrow> buzzer_state" where
  "BuzzerControl_set_buzzer on ok st =
     (if ok then st\<lparr>buzzer_file := (if on then ''1'' else ''0''), buzzer_on := on\<rparr> else st)"

definition BuzzerControl_on_buzzer_state_changed :: "pyval \<Rightarrow> bool \<Rightarrow> buzzer_state \<Rightarrow> buzzer_state" where
  "BuzzerControl_on_buzzer_state_changed val ok st =
     (if val = Num 1
      then (if buzzer_timer st = None
            then (case timeout_add 500 BuzzerControl_on_timer (buzzer_loop st) of
                    (h, ml) \<Rightarrow>
                      BuzzerControl_set_buzzer True ok (st\<lparr>buzzer_timer := Some h, buzzer_loop := ml\<rparr>))
            else st)
      else (case buzzer_timer st of
              None \<Rightarrow> st
            | Some h \<Rightarrow>
                BuzzerControl_set_buzzer False ok
                  (st\<lparr>buzzer_loop := source_remove h (buzzer_loop st), buzzer_timer := None\<rparr>)))"

definition BuzzerControl_timer_fired :: "bool \<Rightarrow> buzzer_state \<Rightarrow> buzzer_state" where
  "BuzzerControl_timer_fired ok st = BuzzerControl_set_buzzer (\<not> buzzer_on st) ok st"

text \<open>
  The buzzer's timers in the main loop are the one the object holds, with a period of
  500 ms, or none.
\<close>

definition buzzer_timers :: "buzzer_state \<Rightarrow> (nat \<times> nat) list" where
  "buzzer_timers st = timers_of BuzzerControl_on_timer (buzzer_loop st)"

definition buzzer_consistent :: "buzzer_state \<Rightarrow> bool" where
  "buzzer_consistent st \<longleftrightarrow>
     buzzer_timers st = (case buzzer_timer st of None \<Rightarrow> [] | Some h \<Rightarrow> [(h, 500)])
     \<and> fresh_handles (buzzer_loop st)"

section \<open>Concrete monitors, snapshots and states\<close>

text \<open>The inputs at which the theorems below are instantiated.\<close>

definition hub_mon_both :: dbusmonitor where
  "hub_mon_both = \<lparr>get_value = (\<lambda>s p. if s = Some (Str ''com.victronenergy.vebus.ttyO1'') \<and> (p = ''/Hub4/AcPowerSetpoint'' \<or> p = ''/Hub1/ChargeVoltage'') then Some 100 else None),
     get_item = (\<lambda>s p. None)\<rparr>"

definition hub_mon_hub1 :: dbusmonitor where
  "hub_mon_hub1 = \<lparr>get_value = (\<lambda>s p. if s = Some (Str ''com.victronenergy.vebus.ttyO1'') \<and> p = ''/Hub1/ChargeVoltage'' then Some 57 else None),
     get_item = (\<lambda>s p. None)\<rparr>"

definition hub_mon_none :: dbusmonitor where
  "hub_mon_none = \<lparr>get_value = (\<lambda>s p. None), get_item = (\<lambda>s p. None)\<rparr>"

definition hub_nv_all :: pydict where
  "hub_nv_all = [''/VebusService'' \<mapsto> Some (Str ''com.victronenergy.vebus.ttyO1''),
                 ''/Dc/Pv/Power'' \<mapsto> Some (Num 120),
                 ''/Ac/PvOnOutput/Total/Power'' \<mapsto> Some (Num 300),
                 ''/Ac/PvOnGrid/Total/Power'' \<mapsto> Some (Num 200),
                 ''/Ac/PvOnGenset/Total/Power'' \<mapsto> None]"

definition hub_nv_ac :: pydict where
  "hub_nv_ac = [''/Ac/PvOnOutput/Total/Power'' \<mapsto> Some (Num 300),
                ''/Ac/PvOnGrid/Total/Power'' \<mapsto> Some (Num 200)]"

definition hub_nv_genset :: pydict where
  "hub_nv_genset = [''/Dc/Pv/Power'' \<mapsto> None, ''/Ac/PvOnGenset/Total/Power'' \<mapsto> Some (Num 50)]"

definition battery_service :: string where
  "battery_service = ''com.victronenergy.battery.ttyO1''"

definition vebus_service :: string where
  "vebus_service = ''com.victronenergy.vebus.ttyO1''"

definition charger_service :: string where
  "charger_service = ''com.victronenergy.solarcharger.ttyO2''"

text \<open>
  A monitor that knows one LG battery and one inverter: the battery's current, the
  inverter's DC voltage, the battery's DC voltage and the inverter's mode item.
\<close>

definition lg_mon :: "real option \<Rightarrow> real option \<Rightarrow> real option \<Rightarrow> dbus_item option \<Rightarrow> dbusmonitor" where
  "lg_mon i v bv item =
     \<lparr>get_value = (\<lambda>s p.
          if s = Some (Str battery_service) \<and> p = ''/ProductId'' then Some 0xB004
          else if s = Some (Str battery_service) \<and> p = ''/Dc/0/Current'' then i
          else if s = Some (Str battery_service) \<and> p = ''/Dc/0/Voltage'' then bv
          else if s = Some (Str vebus_service) \<and> p = ''/Dc/0/Voltage'' then v
          else None),
       get_item = (\<lambda>s p. if s = Some (Str vebus_service) \<and> p = ''/Mode'' then item else None)\<rparr>"

definition nv_vebus :: pydict where
  "nv_vebus = [''/VebusService'' \<mapsto> Some (Str vebus_service)]"

definition nv_no_vebus :: pydict where
  "nv_no_vebus = [''/VebusService'' \<mapsto> None]"

definition mode_item :: dbus_item where
  "mode_item = \<lparr>item_value = Some 3, set_value_raises = False\<rparr>"

definition lg_rest19 :: lg_state where
  "lg_rest19 =
     \<lparr>lg_battery = Some battery_service,
      lg_voltage_buffer = Some [48, 48, 48, 48, 48, 48, 48, 48, 48, 48, 48, 48, 48, 48, 48, 48, 48, 48, 48],
      dbusservice = [alarm_path \<mapsto> Some (Num 0)]\<rparr>"

definition lg_level25 :: lg_state where
  "lg_level25 =
     \<lparr>lg_battery = Some battery_service,
      lg_voltage_buffer = Some [25, 25, 25, 25, 25, 25, 25, 25, 25, 25, 25, 25, 25, 25, 25, 25, 25, 25, 25],
      dbusservice = [alarm_path \<mapsto> Some (Num 0)]\<rparr>"

definition lg_full40 :: lg_state where
  "lg_full40 =
     \<lparr>lg_battery = Some battery_service,
      lg_voltage_buffer = Some [48, 48, 48, 48, 48, 48, 48, 48, 48, 48, 48, 48, 48, 48, 48, 48, 48, 48, 48, 48, 48, 48, 48, 48, 48, 48, 48, 48, 48, 48, 48, 48, 48, 48, 48, 48, 48, 48, 48, 48],
      dbusservice = [alarm_path \<mapsto> Some (Num 0)]\<rparr>"

text \<open>
  A supervisor that knows a battery and a charger; a run of the supervisor from its initial
  state; and what happens between a pass and the battery's reply.
\<close>

definition sup_both :: supervisor where
  "sup_both = \<lparr>supervised = {battery_service, charger_service}, busy = {}\<rparr>"

definition sup_trace :: "sup_event list" where
  "sup_trace =
     [DeviceAdded battery_service, DeviceAdded charger_service,
      ProcessSupervised [battery_service, charger_service], SuperviseSuccess battery_service,
      DeviceRemoved charger_service]"

definition sup_between :: "sup_event list" where
  "sup_between =
     [SuperviseFailed charger_service NoReply (Reply (Some 4242)) False,
      DeviceRemoved charger_service, DeviceAdded charger_service,
      ProcessSupervised [charger_service, battery_service]]"

text \<open>
  The monitor with a tracked battery and a latched alarm, and with one sample stored (the
  state after the battery appears and one tick at rest reads 50.0 V).
\<close>

definition lg_tripped :: lg_state where
  "lg_tripped =
     \<lparr>lg_battery = Some battery_service, lg_voltage_buffer = Some [],
      dbusservice = [alarm_path \<mapsto> Some (Num 2)]\<rparr>"

definition lg_one_sample :: lg_state where
  "lg_one_sample =
     \<lparr>lg_battery = Some battery_service, lg_voltage_buffer = Some [50],
      dbusservice = [alarm_path \<mapsto> Some (Num 0)]\<rparr>"

text \<open>
  A main loop with no timers; a monitor that knows an inverter in Hub-1 mode and one solar
  charger with firmware 0x0117, whose items take every write; and the system service that
  names the inverter.
\<close>

definition empty_loop :: mainloop where
  "empty_loop = \<lparr>next_source = 1, sources = []\<rparr>"

definition charger_mon :: dbusmonitor where
  "charger_mon =
     \<lparr>get_value = (\<lambda>s p.
          if s = Some (Str vebus_service) \<and> p = ''/Hub1/ChargeVoltage'' then Some 57.6
          else if s = Some (Str vebus_service) \<and> p = ''/State'' then Some 3
          else if s = Some (Str charger_service) \<and> p = ''/FirmwareVersion'' then Some 0x0117
          else None),
       get_item = (\<lambda>s p.
          if s = Some (Str charger_service)
          then Some \<lparr>item_value = Some 1, set_value_raises = False\<rparr>
          else None)\<rparr>"

text \<open>The same inverter, seen by a monitor that holds no item for the charger.\<close>

definition no_item_mon :: dbusmonitor where
  "no_item_mon =
     \<lparr>get_value = (\<lambda>s p.
          if s = Some (Str vebus_service) \<and> p = ''/Hub1/ChargeVoltage'' then Some 57.6
          else if s = Some (Str vebus_service) \<and> p = ''/State'' then Some 3
          else None),
       get_item = (\<lambda>s p. None)\<rparr>"

definition system_service :: pydict where
  "system_service = [''/VebusService'' \<mapsto> Some (Str vebus_service)]"

definition buzzer_idle :: buzzer_state where
  "buzzer_idle = \<lparr>buzzer_on = False, buzzer_timer = None, buzzer_loop = empty_loop, buzzer_file = ''0''\<rparr>"

section \<open>Hub classification\<close>

text \<open>
  C3. On every tick snapshot the classifier stores exactly one entry, under \<^verbatim>\<open>/Hub\<close>, and
  leaves every other key of the snapshot as it was. The value is chosen by the first rule
  that matches: a Hub-4 AC power setpoint on the inverter gives 4, whatever else holds;
  failing that a Hub-1 charge voltage or a DC PV power gives 1; failing that a PV-on-output
  total power gives 2; failing that a PV-on-grid or PV-on-genset total power gives 3;
  when no rule matches the value is \<^verbatim>\<open>None\<close>.
\<close>

theorem hub_first_match_wins:
  fixes mon :: dbusmonitor and nv :: pydict
  shows "(get_value mon (dict_get nv ''/VebusService'') ''/Hub4/AcPowerSetpoint'' \<noteq> None \<longrightarrow>
            HubTypeSelect_update_values mon nv ''/Hub'' = Some (Some (Num 4)))
       \<and> (get_value mon (dict_get nv ''/VebusService'') ''/Hub4/AcPowerSetpoint'' = None \<and>
            (get_value mon (dict_get nv ''/VebusService'') ''/Hub1/ChargeVoltage'' \<noteq> None
              \<or> dict_get nv ''/Dc/Pv/Power'' \<noteq> None) \<longrightarrow>
            HubTypeSelect_update_values mon nv ''/Hub'' = Some (Some (Num 1)))
       \<and> (get_value mon (dict_get nv ''/VebusService'') ''/Hub4/AcPowerSetpoint'' = None \<and>
            get_value mon (dict_get nv ''/VebusService'') ''/Hub1/ChargeVoltage'' = None \<and>
            dict_get nv ''/Dc/Pv/Power'' = None \<and>
            dict_get nv ''/Ac/PvOnOutput/Total/Power'' \<noteq> None \<longrightarrow>
            HubTypeSelect_update_values mon nv ''/Hub'' = Some (Some (Num 2)))
       \<and> (get_value mon (dict_get nv ''/VebusService'') ''/Hub4/AcPowerSetpoint'' = None \<and>
            get_value mon (dict_get nv ''/VebusService'') ''/Hub1/ChargeVoltage'' = None \<and>
            dict_get nv ''/Dc/Pv/Power'' = None \<and>
            dict_get nv ''/Ac/PvOnOutput/Total/Power'' = None \<and>
            (dict_get nv ''/Ac/PvOnGrid/Total/Power'' \<noteq> None
              \<or> dict_get nv ''/Ac/PvOnGenset/Total/Power'' \<noteq> None) \<longrightarrow>
            HubTypeSelect_update_values mon nv ''/Hub'' = Some (Some (Num 3)))
       \<and> (get_value mon (dict_get nv ''/VebusService'') ''/Hub4/AcPowerSetpoint'' = None \<and>
            get_value mon (dict_get nv ''/VebusService'') ''/Hub1/ChargeVoltage'' = None \<and>
            dict_get nv ''/Dc/Pv/Power'' = None \<and>
            dict_get nv ''/Ac/PvOnOutput/Total/Power'' = None \<and>
            dict_get nv ''/Ac/PvOnGrid/Total/Power'' = None \<and>
            dict_get nv ''/Ac/PvOnGenset/Total/Power'' = None \<longrightarrow>
            HubTypeSelect_update_values mon nv ''/Hub'' = Some None)
       \<and> (\<forall>k. k \<noteq> ''/Hub'' \<longrightarrow> HubTypeSelect_update_values mon nv k = nv k)
       \<and> HubTypeSelect_update_values mon nv ''/Hub''
            \<in> {Some None, Some (Some (Num 1)), Some (Some (Num 2)),
               Some (Some (Num 3)), Some (Some (Num 4))}"
  by (simp add: HubTypeSelect_update_values_def Let_def)

theorem hub_first_match_wins_witness:
  "HubTypeSelect_update_values hub_mon_both hub_nv_all ''/Hub'' = Some (Some (Num 4))
   \<and> HubTypeSelect_update_values hub_mon_hub1 hub_nv_all ''/Hub'' = Some (Some (Num 1))
   \<and> HubTypeSelect_update_values hub_mon_none hub_nv_all ''/Hub'' = Some (Some (Num 1))
   \<and> HubTypeSelect_update_values hub_mon_none hub_nv_ac ''/Hub'' = Some (Some (Num 2))
   \<and> HubTypeSelect_update_values hub_mon_none hub_nv_genset ''/Hub'' = Some (Some (Num 3))
   \<and> HubTypeSelect_update_values hub_mon_none Map.empty ''/Hub'' = Some None
   \<and> HubTypeSelect_update_values hub_mon_both hub_nv_all ''/Dc/Pv/Power'' = Some (Some (Num 120))"
  using hub_first_match_wins [of hub_mon_both hub_nv_all]
        hub_first_match_wins [of hub_mon_hub1 hub_nv_all]
        hub_first_match_wins [of hub_mon_none hub_nv_all]
        hub_first_match_wins [of hub_mon_none hub_nv_ac]
        hub_first_match_wins [of hub_mon_none hub_nv_genset]
        hub_first_match_wins [of hub_mon_none Map.empty]
  by (simp add: hub_mon_both_def hub_mon_hub1_def hub_mon_none_def hub_nv_all_def hub_nv_ac_def
        hub_nv_genset_def dict_get_def)

section \<open>The probe-failure handler\<close>

text \<open>
  C2. In \<^verbatim>\<open>_supervise_failed\<close> the handler kills a process \<open>p\<close> exactly when the failure
  is a no-reply timeout and the bus resolves the owner of the service to the process id
  \<open>p\<close> with \<open>p > 1\<close>. A failure of any other kind is logged and nothing else is done. A
  no-reply failure whose resolved process id is at most 1 kills nothing. With a no-reply
  failure and a process id above 1 the kill is issued once.
\<close>

theorem supervise_failed_kill_only_on_noreply:
  fixes st :: supervisor
  shows "(Kill p \<in> set (snd (ServiceSupervisor_supervise_failed service error_name pid_reply kill_raises st))
            \<longleftrightarrow> error_name = NoReply \<and> pid_reply = Reply (Some p) \<and> 1 < p)
       \<and> (error_name \<noteq> NoReply \<longrightarrow>
            snd (ServiceSupervisor_supervise_failed service error_name pid_reply kill_raises st)
              = [LogInfo service])
       \<and> (error_name = NoReply \<and> pid_reply = Reply (Some p) \<and> p \<le> 1 \<longrightarrow>
            (\<forall>q. Kill q \<notin> set (snd (ServiceSupervisor_supervise_failed service error_name pid_reply kill_raises st))))
       \<and> (error_name = NoReply \<and> 1 < p \<longrightarrow>
            count_list (snd (ServiceSupervisor_supervise_failed service error_name (Reply (Some p)) kill_raises st)) (Kill p) = 1)"
  by (auto simp: ServiceSupervisor_supervise_failed_def Let_def split: reply.splits option.splits)

theorem supervise_failed_kill_only_on_noreply_witness:
  "snd (ServiceSupervisor_supervise_failed ''com.victronenergy.battery.ttyO1'' NoReply
          (Reply (Some 4242)) False ServiceSupervisor_init)
     = [LogError ''com.victronenergy.battery.ttyO1'', LookupPid ''com.victronenergy.battery.ttyO1'',
        LogError ''com.victronenergy.battery.ttyO1'', Kill 4242]
   \<and> Kill 1 \<notin> set (snd (ServiceSupervisor_supervise_failed ''com.victronenergy.battery.ttyO1'' NoReply
          (Reply (Some 1)) False ServiceSupervisor_init))
   \<and> snd (ServiceSupervisor_supervise_failed ''com.victronenergy.battery.ttyO1''
          ''org.freedesktop.DBus.Error.ServiceUnknown'' (Reply (Some 4242)) False ServiceSupervisor_init)
     = [LogInfo ''com.victronenergy.battery.ttyO1'']"
  using supervise_failed_kill_only_on_noreply
          [of 4242 "''com.victronenergy.battery.ttyO1''" NoReply "Reply (Some 4242)" False ServiceSupervisor_init]
        supervise_failed_kill_only_on_noreply
          [of 1 "''com.victronenergy.battery.ttyO1''" NoReply "Reply (Some 1)" False ServiceSupervisor_init]
        supervise_failed_kill_only_on_noreply
          [of 4242 "''com.victronenergy.battery.ttyO1''" "''org.freedesktop.DBus.Error.ServiceUnknown''"
              "Reply (Some 4242)" False ServiceSupervisor_init]
  by (simp add: ServiceSupervisor_supervise_failed_def NoReply_def)

section \<open>The supervisor's busy set\<close>

lemma process_loop_eq:
  "process_loop order (st, calls) = (st\<lparr>busy := busy st \<union> set order\<rparr>, calls @ order)"
  by (induction order arbitrary: st calls) auto

lemma process_supervised_eq:
  "ServiceSupervisor_process_supervised order st = (st\<lparr>busy := busy st \<union> set order\<rparr>, order)"
  by (simp add: ServiceSupervisor_process_supervised_def process_loop_eq)

lemma device_added_supervised:
  "supervised st \<subseteq> supervised (after (ServiceSupervisor_device_added s st))
   \<and> supervised (after (ServiceSupervisor_device_added s st)) \<subseteq> insert s (supervised st)
   \<and> busy (after (ServiceSupervisor_device_added s st)) = busy st"
  by (auto simp: ServiceSupervisor_device_added_def returns_def raises_def split: sum.splits)

lemma sup_step_subset:
  "busy st \<subseteq> supervised st \<Longrightarrow> sup_enabled st e \<Longrightarrow>
   busy (sup_step st e) \<subseteq> supervised (sup_step st e)"
proof (cases e)
  case (DeviceAdded s)
  assume "busy st \<subseteq> supervised st"
  with device_added_supervised [of st s] DeviceAdded show ?thesis by auto
next
  case (DeviceRemoved s)
  assume "busy st \<subseteq> supervised st"
  with DeviceRemoved show ?thesis by (auto simp: ServiceSupervisor_device_removed_def)
next
  case (ProcessSupervised order)
  assume "busy st \<subseteq> supervised st" "sup_enabled st e"
  with ProcessSupervised show ?thesis by (auto simp: process_supervised_eq)
next
  case (SuperviseSuccess s)
  assume "busy st \<subseteq> supervised st"
  with SuperviseSuccess show ?thesis by (auto simp: ServiceSupervisor_supervise_success_def)
next
  case (SuperviseFailed s err r k)
  assume "busy st \<subseteq> supervised st"
  with SuperviseFailed show ?thesis
    by (auto simp: ServiceSupervisor_supervise_failed_def Let_def split: reply.splits option.splits)
qed

lemma sup_run_subset:
  "busy st \<subseteq> supervised st \<Longrightarrow> sup_valid st es \<Longrightarrow>
   busy (sup_run st es) \<subseteq> supervised (sup_run st es)"
proof (induction es arbitrary: st)
  case Nil
  then show ?case by simp
next
  case (Cons e es)
  from Cons.prems have "busy (sup_step st e) \<subseteq> supervised (sup_step st e)"
    by (simp add: sup_step_subset)
  moreover from Cons.prems have "sup_valid (sup_step st e) es" by simp
  ultimately show ?case using Cons.IH by simp
qed

lemma sup_run_append: "sup_run st (es @ fs) = sup_run (sup_run st es) fs"
  by (induction es arbitrary: st) auto

lemma sup_step_not_supervised:
  "s \<notin> supervised st \<Longrightarrow> e \<noteq> DeviceAdded s \<Longrightarrow> s \<notin> supervised (sup_step st e)"
proof (cases e)
  case (DeviceAdded s')
  assume "s \<notin> supervised st" "e \<noteq> DeviceAdded s"
  with DeviceAdded device_added_supervised [of st s'] show ?thesis by auto
qed (auto simp: ServiceSupervisor_device_removed_def process_supervised_eq
       ServiceSupervisor_supervise_success_def ServiceSupervisor_supervise_failed_def Let_def
       split: reply.splits option.splits)

lemma sup_run_not_supervised:
  "s \<notin> supervised st \<Longrightarrow> \<forall>e\<in>set es. e \<noteq> DeviceAdded s \<Longrightarrow> s \<notin> supervised (sup_run st es)"
  by (induction es arbitrary: st) (auto simp: sup_step_not_supervised)

lemma removed_not_busy_later:
  assumes "sup_valid ServiceSupervisor_init (es1 @ DeviceRemoved s # es2)"
    and "\<forall>e\<in>set es2. e \<noteq> DeviceAdded s"
  shows "\<not> is_busy (sup_run ServiceSupervisor_init (es1 @ DeviceRemoved s # es2)) s"
proof -
  let ?st = "sup_run ServiceSupervisor_init (es1 @ DeviceRemoved s # es2)"
  have "busy ?st \<subseteq> supervised ?st"
    using assms(1) by (intro sup_run_subset) (simp_all add: ServiceSupervisor_init_def)
  moreover have "s \<notin> supervised ?st"
    unfolding sup_run_append using assms(2)
    by (simp add: sup_run_not_supervised ServiceSupervisor_device_removed_def)
  ultimately show ?thesis by (auto simp: is_busy_def)
qed

text \<open>
  C9. In every state the supervisor reaches from its initial one, the busy set is a subset
  of the supervised set. \<^verbatim>\<open>device_added\<close> only grows the supervised set and leaves the
  busy set alone; \<^verbatim>\<open>device_removed\<close> takes the service out of both; a pass adds to the busy
  set exactly the supervised services; both completion callbacks only take their service
  out of the busy set. So \<^verbatim>\<open>is_busy(s)\<close> is false right after \<open>s\<close> is removed, and stays
  false for as long as \<open>s\<close> is not added again.
\<close>

theorem busy_subset_of_supervised:
  "(sup_valid ServiceSupervisor_init es \<longrightarrow>
      busy (sup_run ServiceSupervisor_init es) \<subseteq> supervised (sup_run ServiceSupervisor_init es))
   \<and> (supervised st \<subseteq> supervised (after (ServiceSupervisor_device_added s st))
      \<and> busy (after (ServiceSupervisor_device_added s st)) = busy st)
   \<and> (supervised (ServiceSupervisor_device_removed s st) = supervised st - {s}
      \<and> busy (ServiceSupervisor_device_removed s st) = busy st - {s})
   \<and> (set order = supervised st \<longrightarrow>
        busy (fst (ServiceSupervisor_process_supervised order st)) = busy st \<union> supervised st
        \<and> supervised (fst (ServiceSupervisor_process_supervised order st)) = supervised st)
   \<and> (busy (ServiceSupervisor_supervise_success s st) = busy st - {s}
      \<and> supervised (ServiceSupervisor_supervise_success s st) = supervised st)
   \<and> (busy (fst (ServiceSupervisor_supervise_failed s err r k st)) = busy st - {s}
      \<and> supervised (fst (ServiceSupervisor_supervise_failed s err r k st)) = supervised st)
   \<and> \<not> is_busy (ServiceSupervisor_device_removed s st) s
   \<and> (sup_valid ServiceSupervisor_init (es1 @ DeviceRemoved s # es2)
        \<and> (\<forall>e\<in>set es2. e \<noteq> DeviceAdded s) \<longrightarrow>
      \<not> is_busy (sup_run ServiceSupervisor_init (es1 @ DeviceRemoved s # es2)) s)"
proof -
  have 1: "sup_valid ServiceSupervisor_init es \<longrightarrow>
      busy (sup_run ServiceSupervisor_init es) \<subseteq> supervised (sup_run ServiceSupervisor_init es)"
    by (auto intro!: sup_run_subset [THEN subsetD] simp: ServiceSupervisor_init_def)
  have 2: "supervised st \<subseteq> supervised (after (ServiceSupervisor_device_added s st))
      \<and> busy (after (ServiceSupervisor_device_added s st)) = busy st"
    using device_added_supervised [of st s] by simp
  have 3: "supervised (ServiceSupervisor_device_removed s st) = supervised st - {s}
      \<and> busy (ServiceSupervisor_device_removed s st) = busy st - {s}"
    by (simp add: ServiceSupervisor_device_removed_def)
  have 4: "set order = supervised st \<longrightarrow>
        busy (fst (ServiceSupervisor_process_supervised order st)) = busy st \<union> supervised st
        \<and> supervised (fst (ServiceSupervisor_process_supervised order st)) = supervised st"
    by (simp add: process_supervised_eq)
  have 5: "busy (ServiceSupervisor_supervise_success s st) = busy st - {s}
      \<and> supervised (ServiceSupervisor_supervise_success s st) = supervised st"
    by (simp add: ServiceSupervisor_supervise_success_def)
  have 6: "busy (fst (ServiceSupervisor_supervise_failed s err r k st)) = busy st - {s}
      \<and> supervised (fst (ServiceSupervisor_supervise_failed s err r k st)) = supervised st"
    by (simp add: ServiceSupervisor_supervise_failed_def Let_def split: reply.splits option.splits)
  have 7: "\<not> is_busy (ServiceSupervisor_device_removed s st) s"
    by (simp add: is_busy_def ServiceSupervisor_device_removed_def)
  have 8: "sup_valid ServiceSupervisor_init (es1 @ DeviceRemoved s # es2)
        \<and> (\<forall>e\<in>set es2. e \<noteq> DeviceAdded s) \<longrightarrow>
      \<not> is_busy (sup_run ServiceSupervisor_init (es1 @ DeviceRemoved s # es2)) s"
    using removed_not_busy_later by blast
  from 1 2 3 4 5 6 7 8 show ?thesis by blast
qed

theorem busy_subset_of_supervised_witness:
  "sup_valid ServiceSupervisor_init sup_trace
   \<and> sup_run ServiceSupervisor_init sup_trace = \<lparr>supervised = {battery_service}, busy = {}\<rparr>
   \<and> busy (sup_run ServiceSupervisor_init sup_trace)
       \<subseteq> supervised (sup_run ServiceSupervisor_init sup_trace)
   \<and> \<not> is_busy (sup_run ServiceSupervisor_init sup_trace) charger_service
   \<and> busy (fst (ServiceSupervisor_process_supervised [battery_service, charger_service] sup_both))
       = {battery_service, charger_service}"
proof -
  have v: "sup_valid ServiceSupervisor_init sup_trace"
    by (auto simp: sup_trace_def ServiceSupervisor_init_def ServiceSupervisor_device_added_def
        service_type_def battery_service_def charger_service_def returns_def)
  have r: "sup_run ServiceSupervisor_init sup_trace = \<lparr>supervised = {battery_service}, busy = {}\<rparr>"
    by (auto simp: sup_trace_def ServiceSupervisor_init_def ServiceSupervisor_device_added_def
        ServiceSupervisor_device_removed_def ServiceSupervisor_supervise_success_def
        process_supervised_eq service_type_def battery_service_def charger_service_def returns_def)
  have o: "set [battery_service, charger_service] = supervised sup_both"
    by (auto simp: sup_both_def)
  have t: "sup_trace = [DeviceAdded battery_service, DeviceAdded charger_service,
        ProcessSupervised [battery_service, charger_service], SuperviseSuccess battery_service]
        @ DeviceRemoved charger_service # []"
    by (simp add: sup_trace_def)
  note inst = busy_subset_of_supervised
    [where es = sup_trace and st = sup_both and s = charger_service
       and order = "[battery_service, charger_service]"
       and ?es1.0 = "[DeviceAdded battery_service, DeviceAdded charger_service,
            ProcessSupervised [battery_service, charger_service], SuperviseSuccess battery_service]"
       and ?es2.0 = "[]"]
  note c1 = inst [THEN conjunct1]
  note c4 = inst [THEN conjunct2, THEN conjunct2, THEN conjunct2, THEN conjunct1]
  note c8 = inst [THEN conjunct2, THEN conjunct2, THEN conjunct2, THEN conjunct2,
      THEN conjunct2, THEN conjunct2, THEN conjunct2]
  from c1 v have sub: "busy (sup_run ServiceSupervisor_init sup_trace)
       \<subseteq> supervised (sup_run ServiceSupervisor_init sup_trace)"
    by (rule mp)
  have v': "sup_valid ServiceSupervisor_init
      ([DeviceAdded battery_service, DeviceAdded charger_service,
        ProcessSupervised [battery_service, charger_service], SuperviseSuccess battery_service]
        @ DeviceRemoved charger_service # [])
      \<and> (\<forall>e\<in>set []. e \<noteq> DeviceAdded charger_service)"
    using v unfolding t by simp
  from c8 v' have "\<not> is_busy (sup_run ServiceSupervisor_init
      ([DeviceAdded battery_service, DeviceAdded charger_service,
        ProcessSupervised [battery_service, charger_service], SuperviseSuccess battery_service]
        @ DeviceRemoved charger_service # [])) charger_service"
    by (rule mp)
  then have nb: "\<not> is_busy (sup_run ServiceSupervisor_init sup_trace) charger_service"
    unfolding t .
  from c4 o have "busy (fst (ServiceSupervisor_process_supervised
      [battery_service, charger_service] sup_both)) = busy sup_both \<union> supervised sup_both
      \<and> supervised (fst (ServiceSupervisor_process_supervised
      [battery_service, charger_service] sup_both)) = supervised sup_both"
    by (rule mp)
  then have pass: "busy (fst (ServiceSupervisor_process_supervised
      [battery_service, charger_service] sup_both)) = {battery_service, charger_service}"
    by (simp add: sup_both_def)
  show ?thesis
    by (intro conjI v r sub nb pass)
qed

section \<open>Busy from the probe to its completion\<close>

lemma sup_step_keeps_busy:
  "is_busy st s \<Longrightarrow> \<not> completes s e \<Longrightarrow> s \<in> supervised (sup_step st e) \<Longrightarrow> is_busy (sup_step st e) s"
proof (cases e)
  case (DeviceAdded s')
  assume "is_busy st s"
  with DeviceAdded device_added_supervised [of st s'] show ?thesis by (simp add: is_busy_def)
next
  case (DeviceRemoved s')
  assume "is_busy st s" "s \<in> supervised (sup_step st e)"
  with DeviceRemoved show ?thesis by (auto simp: is_busy_def ServiceSupervisor_device_removed_def)
next
  case (ProcessSupervised order)
  assume "is_busy st s"
  with ProcessSupervised show ?thesis by (simp add: is_busy_def process_supervised_eq)
next
  case (SuperviseSuccess s')
  assume "is_busy st s" "\<not> completes s e"
  with SuperviseSuccess show ?thesis by (auto simp: is_busy_def ServiceSupervisor_supervise_success_def)
next
  case (SuperviseFailed s' err r k)
  assume "is_busy st s" "\<not> completes s e"
  with SuperviseFailed show ?thesis
    by (auto simp: is_busy_def ServiceSupervisor_supervise_failed_def Let_def split: reply.splits option.splits)
qed

lemma stays_supervised_head: "stays_supervised s st es \<Longrightarrow> s \<in> supervised st"
  by (cases es) auto

lemma sup_run_keeps_busy:
  "is_busy st s \<Longrightarrow> stays_supervised s st es \<Longrightarrow> \<forall>e\<in>set es. \<not> completes s e \<Longrightarrow>
   is_busy (sup_run st es) s"
proof (induction es arbitrary: st)
  case Nil
  then show ?case by simp
next
  case (Cons e es)
  from Cons.prems have sup: "stays_supervised s (sup_step st e) es" by simp
  then have "s \<in> supervised (sup_step st e)" by (rule stays_supervised_head)
  with Cons.prems have "is_busy (sup_step st e) s" by (simp add: sup_step_keeps_busy)
  with sup Cons.prems Cons.IH show ?case by simp
qed

lemma stays_supervised_take: "stays_supervised s st es \<Longrightarrow> stays_supervised s st (take n es)"
proof (induction es arbitrary: st n)
  case Nil
  then show ?case by simp
next
  case (Cons e es)
  then show ?case by (cases n) (auto dest: stays_supervised_head)
qed

text \<open>
  C4, as the code has it. Let \<open>s\<close> be a supervised service and let a supervision pass run.
  The pass issues a probe for \<open>s\<close>, and at every point of its loop each service called so
  far is already in the busy set. From the end of the pass on, through any further events
  \<open>es\<close> (devices appearing and disappearing, further passes, completion callbacks of other
  services), \<^verbatim>\<open>is_busy(s)\<close> is true after each of them, as long as \<open>s\<close> stays supervised
  and no completion callback for \<open>s\<close> has run. The success callback and the failure callback
  for \<open>s\<close>, whichever runs then, leave \<^verbatim>\<open>is_busy(s)\<close> false.
\<close>

theorem busy_from_probe_until_completion:
  assumes "s \<in> supervised st"
    and "set order = supervised st"
    and "stays_supervised s (fst (ServiceSupervisor_process_supervised order st)) es"
    and "\<forall>e\<in>set es. \<not> completes s e"
  shows "s \<in> set (snd (ServiceSupervisor_process_supervised order st))
       \<and> (\<forall>n\<le>length order. set (snd (process_loop (take n order) (st, [])))
                               \<subseteq> busy (fst (process_loop (take n order) (st, []))))
       \<and> (\<forall>n\<le>length es.
             is_busy (sup_run (fst (ServiceSupervisor_process_supervised order st)) (take n es)) s)
       \<and> \<not> is_busy (ServiceSupervisor_supervise_success s
               (sup_run (fst (ServiceSupervisor_process_supervised order st)) es)) s
       \<and> \<not> is_busy (fst (ServiceSupervisor_supervise_failed s err r k
               (sup_run (fst (ServiceSupervisor_process_supervised order st)) es))) s"
proof -
  let ?st1 = "fst (ServiceSupervisor_process_supervised order st)"
  have issued: "s \<in> set (snd (ServiceSupervisor_process_supervised order st))"
    using assms(1,2) by (simp add: process_supervised_eq)
  have loop: "\<forall>n\<le>length order. set (snd (process_loop (take n order) (st, [])))
                               \<subseteq> busy (fst (process_loop (take n order) (st, [])))"
    by (simp add: process_loop_eq)
  have b1: "is_busy ?st1 s"
    using assms(1,2) by (simp add: process_supervised_eq is_busy_def)
  have during: "\<forall>n\<le>length es. is_busy (sup_run ?st1 (take n es)) s"
  proof (intro allI impI)
    fix n
    have "stays_supervised s ?st1 (take n es)"
      using assms(3) by (rule stays_supervised_take)
    moreover have "\<forall>e\<in>set (take n es). \<not> completes s e"
      using assms(4) by (meson in_set_takeD)
    ultimately show "is_busy (sup_run ?st1 (take n es)) s"
      using b1 by (simp add: sup_run_keeps_busy)
  qed
  have ok: "\<not> is_busy (ServiceSupervisor_supervise_success s (sup_run ?st1 es)) s"
    by (simp add: is_busy_def ServiceSupervisor_supervise_success_def)
  have failed: "\<not> is_busy (fst (ServiceSupervisor_supervise_failed s err r k (sup_run ?st1 es))) s"
    by (simp add: is_busy_def ServiceSupervisor_supervise_failed_def Let_def split: reply.splits option.splits)
  from issued loop during ok failed show ?thesis by blast
qed

theorem busy_from_probe_until_completion_witness:
  "battery_service \<in> supervised sup_both
   \<and> set [charger_service, battery_service] = supervised sup_both
   \<and> stays_supervised battery_service
       (fst (ServiceSupervisor_process_supervised [charger_service, battery_service] sup_both))
       sup_between
   \<and> list_all (\<lambda>e. \<not> completes battery_service e) sup_between
   \<and> is_busy (fst (ServiceSupervisor_process_supervised [charger_service, battery_service] sup_both))
       battery_service
   \<and> is_busy (sup_run (fst (ServiceSupervisor_process_supervised [charger_service, battery_service]
       sup_both)) sup_between) battery_service
   \<and> \<not> is_busy (ServiceSupervisor_supervise_success battery_service
         (sup_run (fst (ServiceSupervisor_process_supervised [charger_service, battery_service]
           sup_both)) sup_between)) battery_service"
proof -
  have h1: "battery_service \<in> supervised sup_both"
    by (simp add: sup_both_def)
  have h2: "set [charger_service, battery_service] = supervised sup_both"
    by (auto simp: sup_both_def)
  have h3: "stays_supervised battery_service
       (fst (ServiceSupervisor_process_supervised [charger_service, battery_service] sup_both))
       sup_between"
    by (simp add: sup_between_def sup_both_def process_supervised_eq
        ServiceSupervisor_device_added_def ServiceSupervisor_device_removed_def
        ServiceSupervisor_supervise_success_def ServiceSupervisor_supervise_failed_def
        service_type_def battery_service_def charger_service_def returns_def)
  have h4: "\<forall>e\<in>set sup_between. \<not> completes battery_service e"
    by (simp add: sup_between_def battery_service_def charger_service_def)
  note inst = busy_from_probe_until_completion [OF h1 h2 h3 h4]
  note during = inst [THEN conjunct2, THEN conjunct2, THEN conjunct1]
  note done_ok = inst [THEN conjunct2, THEN conjunct2, THEN conjunct2, THEN conjunct1]
  have b0: "is_busy (fst (ServiceSupervisor_process_supervised
      [charger_service, battery_service] sup_both)) battery_service"
    using during [rule_format, of 0] by simp
  have b1: "is_busy (sup_run (fst (ServiceSupervisor_process_supervised
      [charger_service, battery_service] sup_both)) sup_between) battery_service"
    using during [rule_format, of "length sup_between"] by simp
  have h4': "list_all (\<lambda>e. \<not> completes battery_service e) sup_between"
    using h4 by (simp add: list_all_iff)
  show ?thesis
    by (intro conjI h1 h2 h3 h4' b0 b1 done_ok)
qed

text \<open>
  The claim as written, that \<^verbatim>\<open>is_busy(s)\<close> stays true until the probe's completion
  callback runs, fails when \<open>s\<close> disappears in between: \<^verbatim>\<open>device_removed\<close> takes \<open>s\<close> out of
  the busy set at once. A pass probes the battery; the battery service disappears and
  appears again before any reply. No completion callback has run, the battery is
  supervised again, and \<^verbatim>\<open>is_busy\<close> is false for it, after the removal and after the
  return.
\<close>

theorem busy_from_probe_until_completion_counterexample:
  "battery_service \<in> supervised sup_both
   \<and> set [charger_service, battery_service] = supervised sup_both
   \<and> battery_service
       \<in> set (snd (ServiceSupervisor_process_supervised [charger_service, battery_service] sup_both))
   \<and> is_busy (fst (ServiceSupervisor_process_supervised [charger_service, battery_service] sup_both))
       battery_service
   \<and> list_all (\<lambda>e. \<not> completes battery_service e)
       [DeviceRemoved battery_service, DeviceAdded battery_service]
   \<and> \<not> is_busy (sup_run (fst (ServiceSupervisor_process_supervised
         [charger_service, battery_service] sup_both)) [DeviceRemoved battery_service]) battery_service
   \<and> battery_service \<in> supervised (sup_run (fst (ServiceSupervisor_process_supervised
         [charger_service, battery_service] sup_both))
         [DeviceRemoved battery_service, DeviceAdded battery_service])
   \<and> \<not> is_busy (sup_run (fst (ServiceSupervisor_process_supervised
         [charger_service, battery_service] sup_both))
         [DeviceRemoved battery_service, DeviceAdded battery_service]) battery_service"
proof -
  have ty: "service_type battery_service = Inr ''battery''"
    by (simp add: service_type_def battery_service_def)
  have pass: "fst (ServiceSupervisor_process_supervised [charger_service, battery_service] sup_both)
      = \<lparr>supervised = {battery_service, charger_service},
         busy = {charger_service, battery_service}\<rparr>"
    by (auto simp: process_supervised_eq sup_both_def)
  have calls: "snd (ServiceSupervisor_process_supervised [charger_service, battery_service] sup_both)
      = [charger_service, battery_service]"
    by (simp add: process_supervised_eq)
  have ne: "charger_service \<noteq> battery_service"
    by (simp add: charger_service_def battery_service_def)
  have gone: "ServiceSupervisor_device_removed battery_service
        \<lparr>supervised = {battery_service, charger_service},
         busy = {charger_service, battery_service}\<rparr>
      = \<lparr>supervised = {charger_service}, busy = {charger_service}\<rparr>"
    using ne by (auto simp: ServiceSupervisor_device_removed_def)
  have readded: "after (ServiceSupervisor_device_added battery_service
        \<lparr>supervised = {charger_service}, busy = {charger_service}\<rparr>)
      = \<lparr>supervised = {battery_service, charger_service}, busy = {charger_service}\<rparr>"
    using ty by (simp add: ServiceSupervisor_device_added_def returns_def)
  have 1: "battery_service \<in> supervised sup_both"
    by (simp add: sup_both_def)
  have 2: "set [charger_service, battery_service] = supervised sup_both"
    by (auto simp: sup_both_def)
  have 3: "battery_service
       \<in> set (snd (ServiceSupervisor_process_supervised [charger_service, battery_service] sup_both))"
    unfolding calls by simp
  have 4: "is_busy (fst (ServiceSupervisor_process_supervised [charger_service, battery_service]
      sup_both)) battery_service"
    unfolding pass by (simp add: is_busy_def)
  have 5: "list_all (\<lambda>e. \<not> completes battery_service e)
       [DeviceRemoved battery_service, DeviceAdded battery_service]"
    by simp
  have 6: "\<not> is_busy (sup_run (fst (ServiceSupervisor_process_supervised
         [charger_service, battery_service] sup_both)) [DeviceRemoved battery_service]) battery_service"
    unfolding pass using ne by (simp add: gone is_busy_def)
  have 7: "battery_service \<in> supervised (sup_run (fst (ServiceSupervisor_process_supervised
         [charger_service, battery_service] sup_both))
         [DeviceRemoved battery_service, DeviceAdded battery_service])"
    unfolding pass by (simp add: gone readded)
  have 8: "\<not> is_busy (sup_run (fst (ServiceSupervisor_process_supervised
         [charger_service, battery_service] sup_both))
         [DeviceRemoved battery_service, DeviceAdded battery_service]) battery_service"
    unfolding pass using ne by (simp add: gone readded is_busy_def)
  show ?thesis
    by (intro conjI 1 2 3 4 5 6 7 8)
qed

section \<open>Float products\<close>

lemma pow2_powr: "pow2 e = 2 powr (of_int e)"
  by (simp add: pow2_def powr_int)

text \<open>Rounding a positive number whose binade is known.\<close>

lemma double_round_binade:
  assumes "0 < x" and "pow2 e \<le> x" and "x < pow2 (e + 1)" and "- 1022 \<le> e"
  shows "double_round x = of_int (round_half_even (x / pow2 (e - 52))) * pow2 (e - 52)"
proof -
  have "\<lfloor>log 2 x\<rfloor> = e"
    using assms(1-3) by (simp add: floor_log_eq_powr_iff pow2_powr)
  with assms(1,4) show ?thesis
    by (simp add: double_round_def Let_def max_def)
qed

text \<open>
  The two literals as doubles, and the products Python prints as \<^verbatim>\<open>43.2\<close>,
  \<^verbatim>\<open>52.800000000000004\<close>, \<^verbatim>\<open>45.0\<close>, \<^verbatim>\<open>55.00000000000001\<close>, \<^verbatim>\<open>37.800000000000004\<close>,
  \<^verbatim>\<open>22.5\<close> and \<^verbatim>\<open>27.500000000000004\<close>.
\<close>

lemma literal_09: "double_round 0.9 = 8106479329266893 / 2 ^ 53"
  by (simp add: double_round_binade [where e = "-1"] pow2_def round_half_even_def Let_def)

lemma literal_11: "double_round 1.1 = 2476979795053773 / 2 ^ 51"
  by (simp add: double_round_binade [where e = 0] pow2_def round_half_even_def Let_def)

lemma product_09_48: "float_mul (double_round 0.9) 48 = 3039929748475085 / 2 ^ 46"
  by (simp add: float_mul_def literal_09 double_round_binade [where e = 5] pow2_def
      round_half_even_def Let_def)

lemma product_11_48: "float_mul (double_round 1.1) 48 = 7430939385161319 / 2 ^ 47"
  by (simp add: float_mul_def literal_11 double_round_binade [where e = 5] pow2_def
      round_half_even_def Let_def)

lemma product_09_50: "float_mul (double_round 0.9) 50 = 45"
  by (simp add: float_mul_def literal_09 double_round_binade [where e = 5] pow2_def
      round_half_even_def Let_def)

lemma product_11_50: "float_mul (double_round 1.1) 50 = 7740561859543041 / 2 ^ 47"
  by (simp add: float_mul_def literal_11 double_round_binade [where e = 5] pow2_def
      round_half_even_def Let_def)

lemma product_09_42: "float_mul (double_round 0.9) 42 = 5319877059831399 / 2 ^ 47"
  by (simp add: float_mul_def literal_09 double_round_binade [where e = 5] pow2_def
      round_half_even_def Let_def)

lemma product_09_25: "float_mul (double_round 0.9) 25 = 45 / 2"
  by (simp add: float_mul_def literal_09 double_round_binade [where e = 4] pow2_def
      round_half_even_def Let_def)

lemma product_11_25: "float_mul (double_round 1.1) 25 = 7740561859543041 / 2 ^ 48"
  by (simp add: float_mul_def literal_11 double_round_binade [where e = 4] pow2_def
      round_half_even_def Let_def)

section \<open>The voltage window of the safety monitor\<close>

lemma py_min_Min: "xs \<noteq> [] \<Longrightarrow> py_min xs = Inr (Min (set xs))"
  using Min.set_eq_fold [of "hd xs" "tl xs"] by (cases xs) (simp_all add: py_min_def)

lemma py_max_Max: "xs \<noteq> [] \<Longrightarrow> py_max xs = Inr (Max (set xs))"
  using Max.set_eq_fold [of "hd xs" "tl xs"] by (cases xs) (simp_all add: py_max_def)

lemma length_last40: "length (last40 xs) = min (length xs) 40"
  by (simp add: last40_def)

lemma last40_short: "length xs \<le> 40 \<Longrightarrow> last40 xs = xs"
  by (simp add: last40_def)

lemma last40_suffix: "\<exists>ys. xs = ys @ last40 xs"
  by (metis append_take_drop_id last40_def)

lemma lg_reset_bounded: "window_bounded st \<Longrightarrow> window_bounded (after (lg_reset st))"
  by (auto simp: lg_reset_def window_bounded_def returns_def raises_def split: option.splits)

lemma lg_evaluate_bounded: "window_bounded st \<Longrightarrow> window_bounded (after (lg_evaluate mon vp b st))"
  by (auto simp: lg_evaluate_def window_bounded_def returns_def raises_def Let_def
      split: option.splits sum.splits)

lemma update_values_bounded:
  "window_bounded st \<Longrightarrow> window_bounded (after (LgCircuitBreakerDetect_update_values mon nv st))"
  unfolding LgCircuitBreakerDetect_update_values_def Let_def
  by (auto split: option.splits intro!: lg_reset_bounded lg_evaluate_bounded
       simp: returns_def raises_def)
     (auto simp: window_bounded_def length_last40)

lemma lg_step_bounded: "window_bounded st \<Longrightarrow> window_bounded (lg_step st e)"
proof (cases e)
  case (LgDeviceAdded mon s)
  assume "window_bounded st"
  with LgDeviceAdded show ?thesis
    by (auto simp: LgCircuitBreakerDetect_device_added_def window_bounded_def returns_def raises_def
        split: sum.splits)
next
  case (LgDeviceRemoved s)
  assume "window_bounded st"
  with LgDeviceRemoved show ?thesis
    by (auto simp: LgCircuitBreakerDetect_device_removed_def window_bounded_def)
next
  case (LgUpdateValues mon nv)
  assume "window_bounded st"
  with LgUpdateValues show ?thesis by (simp add: update_values_bounded)
qed

lemma lg_run_bounded: "window_bounded st \<Longrightarrow> window_bounded (lg_run st es)"
  by (induction es arbitrary: st) (auto simp: lg_step_bounded)

text \<open>While a battery is tracked the window is a list: the guards of a tick rely on it.\<close>

lemma lg_step_buffer:
  assumes "lg_battery st \<noteq> None \<longrightarrow> lg_voltage_buffer st \<noteq> None"
  shows "lg_battery (lg_step st e) \<noteq> None \<longrightarrow> lg_voltage_buffer (lg_step st e) \<noteq> None"
proof (cases e)
  case (LgDeviceAdded mon s)
  with assms show ?thesis
    by (auto simp: LgCircuitBreakerDetect_device_added_def returns_def raises_def split: sum.splits)
next
  case (LgDeviceRemoved s)
  with assms show ?thesis
    by (auto simp: LgCircuitBreakerDetect_device_removed_def)
next
  case (LgUpdateValues mon nv)
  with assms show ?thesis
    by (auto simp: LgCircuitBreakerDetect_update_values_def lg_reset_def lg_evaluate_def Let_def
        returns_def raises_def split: option.splits sum.splits if_splits)
qed

lemma lg_run_buffer:
  "lg_battery st \<noteq> None \<longrightarrow> lg_voltage_buffer st \<noteq> None \<Longrightarrow>
   lg_battery (lg_run st es) \<noteq> None \<longrightarrow> lg_voltage_buffer (lg_run st es) \<noteq> None"
proof (induction es arbitrary: st)
  case Nil
  then show ?case by simp
next
  case (Cons e es)
  from Cons.prems have "lg_battery (lg_step st e) \<noteq> None \<longrightarrow> lg_voltage_buffer (lg_step st e) \<noteq> None"
    by (rule lg_step_buffer)
  then show ?case using Cons.IH by simp
qed

lemma tracked_battery_has_window:
  "lg_battery (lg_run (LgCircuitBreakerDetect_set_sources service) es) \<noteq> None \<longrightarrow>
   lg_voltage_buffer (lg_run (LgCircuitBreakerDetect_set_sources service) es) \<noteq> None"
  by (rule lg_run_buffer) (simp add: LgCircuitBreakerDetect_set_sources_def)

text \<open>What a tick does once it has passed the guards and read a sample.\<close>

lemma update_values_rest:
  assumes "lg_battery st = Some b" and "lg_voltage_buffer st = Some buf"
    and "dict_get nv ''/VebusService'' = Some vp"
    and "get_value mon (Some (Str b)) ''/Dc/0/Current'' = Some i" and "\<bar>i\<bar> \<le> 0.01"
    and "get_value mon (Some vp) ''/Dc/0/Voltage'' = Some v"
  shows "LgCircuitBreakerDetect_update_values mon nv st =
           (if length (buf @ [v]) < 20 then returns (st\<lparr>lg_voltage_buffer := Some (buf @ [v])\<rparr>)
            else lg_evaluate mon (Some vp) b (st\<lparr>lg_voltage_buffer := Some (last40 (buf @ [v]))\<rparr>))"
  using assms by (simp add: LgCircuitBreakerDetect_update_values_def Let_def last40_short)

text \<open>
  C5. The window holds at most 40 samples at the end of every call: in every state the
  monitor reaches after \<^verbatim>\<open>set_sources\<close>, whatever devices appear and disappear and whatever
  the ticks read, and in particular \<^verbatim>\<open>update_values\<close> keeps the bound. When the append
  makes the window longer than 40, the tick goes on with the window cut to its 40 most
  recent samples: that is the window the minimum and maximum are taken of, and the one the
  call leaves behind (or an empty one, after an alarm).
\<close>

theorem window_never_exceeds_40:
  "window_bounded (lg_run (LgCircuitBreakerDetect_set_sources service) es)
   \<and> (window_bounded st \<longrightarrow> window_bounded (after (LgCircuitBreakerDetect_update_values mon nv st)))
   \<and> (lg_battery st = Some b \<and> lg_voltage_buffer st = Some buf
        \<and> dict_get nv ''/VebusService'' = Some vp
        \<and> get_value mon (Some (Str b)) ''/Dc/0/Current'' = Some i \<and> \<bar>i\<bar> \<le> 0.01
        \<and> get_value mon (Some vp) ''/Dc/0/Voltage'' = Some v
        \<and> 40 < length (buf @ [v]) \<longrightarrow>
      LgCircuitBreakerDetect_update_values mon nv st
        = lg_evaluate mon (Some vp) b (st\<lparr>lg_voltage_buffer := Some (last40 (buf @ [v]))\<rparr>)
      \<and> length (last40 (buf @ [v])) = 40
      \<and> (\<exists>older. buf @ [v] = older @ last40 (buf @ [v]))
      \<and> (\<exists>w. lg_voltage_buffer (after (LgCircuitBreakerDetect_update_values mon nv st)) = Some w
               \<and> length w \<le> 40))"
proof -
  have a: "window_bounded (lg_run (LgCircuitBreakerDetect_set_sources service) es)"
    by (rule lg_run_bounded) (simp add: window_bounded_def LgCircuitBreakerDetect_set_sources_def)
  have b: "window_bounded st \<longrightarrow> window_bounded (after (LgCircuitBreakerDetect_update_values mon nv st))"
    by (simp add: update_values_bounded)
  have c: "LgCircuitBreakerDetect_update_values mon nv st
        = lg_evaluate mon (Some vp) b (st\<lparr>lg_voltage_buffer := Some (last40 (buf @ [v]))\<rparr>)
      \<and> length (last40 (buf @ [v])) = 40
      \<and> (\<exists>older. buf @ [v] = older @ last40 (buf @ [v]))
      \<and> (\<exists>w. lg_voltage_buffer (after (LgCircuitBreakerDetect_update_values mon nv st)) = Some w
               \<and> length w \<le> 40)"
    if h: "lg_battery st = Some b" "lg_voltage_buffer st = Some buf"
        "dict_get nv ''/VebusService'' = Some vp"
        "get_value mon (Some (Str b)) ''/Dc/0/Current'' = Some i" "\<bar>i\<bar> \<le> 0.01"
        "get_value mon (Some vp) ''/Dc/0/Voltage'' = Some v"
        "40 < length (buf @ [v])"
  proof -
    have eq: "LgCircuitBreakerDetect_update_values mon nv st
        = lg_evaluate mon (Some vp) b (st\<lparr>lg_voltage_buffer := Some (last40 (buf @ [v]))\<rparr>)"
      using h update_values_rest [of st b buf nv vp mon i v] by simp
    have len: "length (last40 (buf @ [v])) = 40"
      using h(7) by (simp add: length_last40)
    have "\<exists>w. lg_voltage_buffer (after (lg_evaluate mon (Some vp) b
                 (st\<lparr>lg_voltage_buffer := Some (last40 (buf @ [v]))\<rparr>))) = Some w \<and> length w \<le> 40"
      using len
      by (auto simp: lg_evaluate_def returns_def raises_def Let_def split: option.splits sum.splits)
    with eq len last40_suffix [of "buf @ [v]"] show ?thesis by simp
  qed
  from a b c show ?thesis by blast
qed

theorem window_never_exceeds_40_witness:
  "window_bounded (lg_run (LgCircuitBreakerDetect_set_sources Map.empty)
      [LgDeviceAdded (lg_mon (Some 0) (Some 49) (Some 50) (Some mode_item)) battery_service,
       LgUpdateValues (lg_mon (Some 0) (Some 49) (Some 50) (Some mode_item)) nv_vebus])
   \<and> window_bounded lg_full40
   \<and> window_bounded (after (LgCircuitBreakerDetect_update_values
        (lg_mon (Some 0) (Some 49) (Some 50) (Some mode_item)) nv_vebus lg_full40))
   \<and> lg_voltage_buffer (after (LgCircuitBreakerDetect_update_values
        (lg_mon (Some 0) (Some 49) (Some 50) (Some mode_item)) nv_vebus lg_full40))
      = Some [48, 48, 48, 48, 48, 48, 48, 48, 48, 48, 48, 48, 48, 48, 48, 48, 48, 48, 48, 48, 48, 48, 48, 48, 48, 48, 48, 48, 48, 48, 48, 48, 48, 48, 48, 48, 48, 48, 48, 49]"
  using window_never_exceeds_40
    [where service = Map.empty
       and es = "[LgDeviceAdded (lg_mon (Some 0) (Some 49) (Some 50) (Some mode_item)) battery_service,
                  LgUpdateValues (lg_mon (Some 0) (Some 49) (Some 50) (Some mode_item)) nv_vebus]"
       and st = lg_full40 and mon = "lg_mon (Some 0) (Some 49) (Some 50) (Some mode_item)"
       and nv = nv_vebus and b = battery_service and vp = "Str vebus_service"
       and buf = "[48, 48, 48, 48, 48, 48, 48, 48, 48, 48, 48, 48, 48, 48, 48, 48, 48, 48, 48, 48, 48, 48, 48, 48, 48, 48, 48, 48, 48, 48, 48, 48, 48, 48, 48, 48, 48, 48, 48, 48]" and i = 0 and v = 49]
  by (simp add: lg_full40_def lg_mon_def nv_vebus_def dict_get_def battery_service_def
        vebus_service_def last40_def lg_evaluate_def py_min_def py_max_def returns_def
        window_bounded_def product_09_50 product_11_50)

section \<open>The published alarm value\<close>

lemma lg_reset_alarm:
  "dbusservice (after (lg_reset st)) = dbusservice st \<and> lg_battery (after (lg_reset st)) = lg_battery st"
  by (auto simp: lg_reset_def returns_def raises_def split: option.splits)

lemma lg_evaluate_alarm:
  "alarm_tracks_battery st \<Longrightarrow> lg_battery st \<noteq> None \<Longrightarrow>
   alarm_tracks_battery (after (lg_evaluate mon vp b st))"
  by (auto simp: lg_evaluate_def alarm_tracks_battery_def dict_get_def returns_def raises_def Let_def
      split: option.splits sum.splits)

lemma update_values_alarm:
  "alarm_tracks_battery st \<Longrightarrow>
   alarm_tracks_battery (after (LgCircuitBreakerDetect_update_values mon nv st))"
proof (cases "lg_battery st")
  case None
  assume "alarm_tracks_battery st"
  with None show ?thesis
    by (simp add: LgCircuitBreakerDetect_update_values_def returns_def)
next
  case (Some b)
  assume inv: "alarm_tracks_battery st"
  have r: "alarm_tracks_battery (after (lg_reset st))"
    using inv lg_reset_alarm [of st] by (simp add: alarm_tracks_battery_def)
  have e: "alarm_tracks_battery (after (lg_evaluate mon vp b (st\<lparr>lg_voltage_buffer := w\<rparr>)))" for vp w
    using inv Some by (intro lg_evaluate_alarm) (simp_all add: alarm_tracks_battery_def)
  have k: "alarm_tracks_battery (st\<lparr>lg_voltage_buffer := w\<rparr>)" for w
    using inv by (simp add: alarm_tracks_battery_def)
  show ?thesis
    using Some inv r e k
    by (simp add: LgCircuitBreakerDetect_update_values_def Let_def returns_def raises_def
        split: option.splits)
qed

lemma lg_step_alarm: "alarm_tracks_battery st \<Longrightarrow> alarm_tracks_battery (lg_step st e)"
proof (cases e)
  case (LgDeviceAdded mon s)
  assume "alarm_tracks_battery st"
  with LgDeviceAdded show ?thesis
    by (auto simp: LgCircuitBreakerDetect_device_added_def alarm_tracks_battery_def dict_get_def
        returns_def raises_def split: sum.splits)
next
  case (LgDeviceRemoved s)
  assume "alarm_tracks_battery st"
  with LgDeviceRemoved show ?thesis
    by (auto simp: LgCircuitBreakerDetect_device_removed_def alarm_tracks_battery_def dict_get_def)
next
  case (LgUpdateValues mon nv)
  assume "alarm_tracks_battery st"
  with LgUpdateValues show ?thesis by (simp add: update_values_alarm)
qed

lemma lg_run_alarm: "alarm_tracks_battery st \<Longrightarrow> alarm_tracks_battery (lg_run st es)"
  by (induction es arbitrary: st) (auto simp: lg_step_alarm)

text \<open>
  C10. After \<^verbatim>\<open>set_sources\<close> the alarm path exists with value \<^verbatim>\<open>None\<close> and no battery is
  tracked. In every state reached from there the value is not \<^verbatim>\<open>None\<close> exactly when a
  battery is tracked, and each of \<^verbatim>\<open>device_added\<close>, \<^verbatim>\<open>device_removed\<close> and
  \<^verbatim>\<open>update_values\<close> keeps it so. An appearing battery service with product id 0xB004 becomes
  the tracked battery and sets the value to 0, whatever it was; any other appearing service
  changes nothing. When the tracked battery disappears the value is \<^verbatim>\<open>None\<close> again and no
  battery is tracked; the disappearance of any other service changes nothing.
\<close>

theorem alarm_value_tracks_lg_battery:
  "alarm_tracks_battery (lg_run (LgCircuitBreakerDetect_set_sources service) es)
   \<and> dbusservice (LgCircuitBreakerDetect_set_sources service) alarm_path = Some None
   \<and> lg_battery (LgCircuitBreakerDetect_set_sources service) = None
   \<and> (service_type s = Inr ''battery'' \<and> get_value mon (Some (Str s)) ''/ProductId'' = Some 0xB004 \<longrightarrow>
        lg_battery (after (LgCircuitBreakerDetect_device_added mon s st)) = Some s
        \<and> dbusservice (after (LgCircuitBreakerDetect_device_added mon s st)) alarm_path
            = Some (Some (Num 0)))
   \<and> (\<not> (service_type s = Inr ''battery'' \<and> get_value mon (Some (Str s)) ''/ProductId'' = Some 0xB004) \<longrightarrow>
        after (LgCircuitBreakerDetect_device_added mon s st) = st)
   \<and> (lg_battery st = Some s \<longrightarrow>
        lg_battery (LgCircuitBreakerDetect_device_removed s st) = None
        \<and> dbusservice (LgCircuitBreakerDetect_device_removed s st) alarm_path = Some None)
   \<and> (lg_battery st \<noteq> Some s \<longrightarrow> LgCircuitBreakerDetect_device_removed s st = st)
   \<and> (alarm_tracks_battery st \<longrightarrow>
        alarm_tracks_battery (after (LgCircuitBreakerDetect_device_added mon s st))
        \<and> alarm_tracks_battery (LgCircuitBreakerDetect_device_removed s st)
        \<and> alarm_tracks_battery (after (LgCircuitBreakerDetect_update_values mon nv st)))"
proof -
  have 1: "alarm_tracks_battery (lg_run (LgCircuitBreakerDetect_set_sources service) es)"
    by (rule lg_run_alarm)
       (simp add: alarm_tracks_battery_def LgCircuitBreakerDetect_set_sources_def dict_get_def)
  have 2: "dbusservice (LgCircuitBreakerDetect_set_sources service) alarm_path = Some None
     \<and> lg_battery (LgCircuitBreakerDetect_set_sources service) = None"
    by (simp add: LgCircuitBreakerDetect_set_sources_def)
  have 3: "service_type s = Inr ''battery'' \<and> get_value mon (Some (Str s)) ''/ProductId'' = Some 0xB004 \<longrightarrow>
        lg_battery (after (LgCircuitBreakerDetect_device_added mon s st)) = Some s
        \<and> dbusservice (after (LgCircuitBreakerDetect_device_added mon s st)) alarm_path
            = Some (Some (Num 0))"
    by (simp add: LgCircuitBreakerDetect_device_added_def returns_def)
  have 4: "\<not> (service_type s = Inr ''battery'' \<and> get_value mon (Some (Str s)) ''/ProductId'' = Some 0xB004) \<longrightarrow>
        after (LgCircuitBreakerDetect_device_added mon s st) = st"
    by (auto simp: LgCircuitBreakerDetect_device_added_def returns_def raises_def split: sum.splits)
  have 5: "lg_battery st = Some s \<longrightarrow>
        lg_battery (LgCircuitBreakerDetect_device_removed s st) = None
        \<and> dbusservice (LgCircuitBreakerDetect_device_removed s st) alarm_path = Some None"
    by (simp add: LgCircuitBreakerDetect_device_removed_def)
  have 6: "lg_battery st \<noteq> Some s \<longrightarrow> LgCircuitBreakerDetect_device_removed s st = st"
    by (auto simp: LgCircuitBreakerDetect_device_removed_def)
  have 7: "alarm_tracks_battery st \<longrightarrow>
        alarm_tracks_battery (after (LgCircuitBreakerDetect_device_added mon s st))
        \<and> alarm_tracks_battery (LgCircuitBreakerDetect_device_removed s st)
        \<and> alarm_tracks_battery (after (LgCircuitBreakerDetect_update_values mon nv st))"
    using lg_step_alarm [of st "LgDeviceAdded mon s"] lg_step_alarm [of st "LgDeviceRemoved s"]
      lg_step_alarm [of st "LgUpdateValues mon nv"] by simp
  from 1 2 3 4 5 6 7 show ?thesis by blast
qed

theorem alarm_value_tracks_lg_battery_witness:
  "alarm_tracks_battery (lg_run (LgCircuitBreakerDetect_set_sources Map.empty)
      [LgDeviceAdded (lg_mon (Some 0) (Some 50) (Some 50) (Some mode_item)) battery_service,
       LgDeviceRemoved battery_service])
   \<and> service_type battery_service = Inr ''battery''
   \<and> dbusservice lg_tripped alarm_path = Some (Some (Num 2))
   \<and> dbusservice (after (LgCircuitBreakerDetect_device_added
        (lg_mon (Some 0) (Some 50) (Some 50) (Some mode_item)) battery_service lg_tripped)) alarm_path
      = Some (Some (Num 0))
   \<and> lg_battery lg_tripped = Some battery_service
   \<and> dbusservice (LgCircuitBreakerDetect_device_removed battery_service lg_tripped) alarm_path
      = Some None
   \<and> lg_battery (LgCircuitBreakerDetect_device_removed battery_service lg_tripped) = None
   \<and> alarm_tracks_battery lg_tripped
   \<and> alarm_tracks_battery (after (LgCircuitBreakerDetect_update_values
        (lg_mon (Some 0) (Some 50) (Some 50) (Some mode_item)) nv_vebus lg_tripped))"
proof -
  note inst = alarm_value_tracks_lg_battery
    [where service = Map.empty
       and es = "[LgDeviceAdded (lg_mon (Some 0) (Some 50) (Some 50) (Some mode_item)) battery_service,
                  LgDeviceRemoved battery_service]"
       and s = battery_service and st = lg_tripped and nv = nv_vebus
       and mon = "lg_mon (Some 0) (Some 50) (Some 50) (Some mode_item)"]
  have ty: "service_type battery_service = Inr ''battery''"
    by (simp add: service_type_def battery_service_def)
  have pid: "get_value (lg_mon (Some 0) (Some 50) (Some 50) (Some mode_item))
      (Some (Str battery_service)) ''/ProductId'' = Some 0xB004"
    by (simp add: lg_mon_def)
  have tracked: "lg_battery lg_tripped = Some battery_service"
    by (simp add: lg_tripped_def)
  have latched: "dbusservice lg_tripped alarm_path = Some (Some (Num 2))"
    by (simp add: lg_tripped_def)
  have inv: "alarm_tracks_battery lg_tripped"
    by (simp add: lg_tripped_def alarm_tracks_battery_def dict_get_def)
  from inst ty pid tracked inv latched show ?thesis
    by simp
qed

section \<open>A load current empties the window\<close>

text \<open>
  C6, as the code has it. On a tick on which a battery is tracked, the snapshot names an
  inverter service, and the battery's current is unavailable or larger than 0.01 A in
  magnitude, the call returns with the window empty, makes no bus write, and leaves the
  published values and the tracked battery as they were: no sample is appended and nothing
  is evaluated. (When the snapshot names no inverter the call returns at once and the
  window is left as it was.)
\<close>

theorem load_current_clears_window:
  assumes "lg_battery st = Some b" and "lg_voltage_buffer st = Some buf"
    and "dict_get nv ''/VebusService'' \<noteq> None"
    and "get_value mon (Some (Str b)) ''/Dc/0/Current'' = None
         \<or> (\<exists>i. get_value mon (Some (Str b)) ''/Dc/0/Current'' = Some i \<and> \<bar>i\<bar> > 0.01)"
  shows "lg_voltage_buffer (after (LgCircuitBreakerDetect_update_values mon nv st)) = Some []
       \<and> writes (LgCircuitBreakerDetect_update_values mon nv st) = []
       \<and> raised (LgCircuitBreakerDetect_update_values mon nv st) = None
       \<and> dbusservice (after (LgCircuitBreakerDetect_update_values mon nv st)) = dbusservice st
       \<and> lg_battery (after (LgCircuitBreakerDetect_update_values mon nv st)) = lg_battery st"
proof -
  have "LgCircuitBreakerDetect_update_values mon nv st = lg_reset st"
    using assms by (auto simp: LgCircuitBreakerDetect_update_values_def Let_def)
  then show ?thesis
    using assms(2) by (simp add: lg_reset_def returns_def)
qed

theorem load_current_clears_window_witness:
  "lg_battery lg_one_sample = Some battery_service
   \<and> lg_voltage_buffer lg_one_sample = Some [50]
   \<and> dict_get nv_vebus ''/VebusService'' = Some (Str vebus_service)
   \<and> get_value (lg_mon (Some 5) (Some 50) (Some 50) (Some mode_item))
         (Some (Str battery_service)) ''/Dc/0/Current'' = Some 5
   \<and> \<bar>5::real\<bar> > 0.01
   \<and> lg_voltage_buffer (after (LgCircuitBreakerDetect_update_values
         (lg_mon (Some 5) (Some 50) (Some 50) (Some mode_item)) nv_vebus lg_one_sample)) = Some []
   \<and> lg_voltage_buffer (after (LgCircuitBreakerDetect_update_values
         (lg_mon None (Some 50) (Some 50) (Some mode_item)) nv_vebus lg_one_sample)) = Some []"
proof -
  have b: "lg_battery lg_one_sample = Some battery_service"
    and w: "lg_voltage_buffer lg_one_sample = Some [50]"
    by (simp_all add: lg_one_sample_def)
  have v: "dict_get nv_vebus ''/VebusService'' = Some (Str vebus_service)"
    by (simp add: nv_vebus_def dict_get_def)
  then have v': "dict_get nv_vebus ''/VebusService'' \<noteq> None"
    by simp
  have i: "get_value (lg_mon (Some 5) (Some 50) (Some 50) (Some mode_item))
         (Some (Str battery_service)) ''/Dc/0/Current'' = Some 5"
    by (simp add: lg_mon_def)
  have big: "\<bar>5::real\<bar> > 0.01"
    by simp
  have load: "get_value (lg_mon (Some 5) (Some 50) (Some 50) (Some mode_item))
         (Some (Str battery_service)) ''/Dc/0/Current'' = None
       \<or> (\<exists>i. get_value (lg_mon (Some 5) (Some 50) (Some 50) (Some mode_item))
         (Some (Str battery_service)) ''/Dc/0/Current'' = Some i \<and> \<bar>i\<bar> > 0.01)"
    using i big by simp
  have none: "get_value (lg_mon None (Some 50) (Some 50) (Some mode_item))
         (Some (Str battery_service)) ''/Dc/0/Current'' = None
       \<or> (\<exists>i. get_value (lg_mon None (Some 50) (Some 50) (Some mode_item))
         (Some (Str battery_service)) ''/Dc/0/Current'' = Some i \<and> \<bar>i\<bar> > 0.01)"
    by (simp add: lg_mon_def battery_service_def)
  note r1 = load_current_clears_window [OF b w v' load, THEN conjunct1]
  note r2 = load_current_clears_window [OF b w v' none, THEN conjunct1]
  show ?thesis
    by (intro conjI b w v i big r1 r2)
qed

text \<open>
  The claim as written, that such a current clears the window on every tick, fails when
  the snapshot names no inverter: the battery appears, one tick at rest stores the sample
  50.0, then the inverter is gone and the battery carries 5 A (or reports no current); the
  window still holds the sample.
\<close>

theorem load_current_clears_window_counterexample:
  "lg_run (LgCircuitBreakerDetect_set_sources Map.empty)
     [LgDeviceAdded (lg_mon (Some 0) (Some 50) (Some 50) (Some mode_item)) battery_service,
      LgUpdateValues (lg_mon (Some 0) (Some 50) (Some 50) (Some mode_item)) nv_vebus]
     = lg_one_sample
   \<and> get_value (lg_mon (Some 5) (Some 50) (Some 50) (Some mode_item)) (Some (Str battery_service))
        ''/Dc/0/Current'' = Some 5
   \<and> \<bar>5::real\<bar> > 0.01
   \<and> lg_voltage_buffer (after (LgCircuitBreakerDetect_update_values
        (lg_mon (Some 5) (Some 50) (Some 50) (Some mode_item)) nv_no_vebus
        lg_one_sample)) = Some [50]
   \<and> lg_voltage_buffer (after (LgCircuitBreakerDetect_update_values
        (lg_mon None (Some 50) (Some 50) (Some mode_item)) nv_no_vebus
        lg_one_sample)) \<noteq> Some []"
  by (simp add: lg_one_sample_def LgCircuitBreakerDetect_set_sources_def LgCircuitBreakerDetect_device_added_def
      LgCircuitBreakerDetect_update_values_def lg_mon_def nv_vebus_def nv_no_vebus_def dict_get_def
      battery_service_def vebus_service_def service_type_def returns_def raises_def)

section \<open>When the circuit-breaker alarm fires\<close>

lemma last40_not_empty: "last40 (buf @ [v]) \<noteq> []"
  using length_last40 [of "buf @ [v]"] by (cases "last40 (buf @ [v])") simp_all

lemma lg_evaluate_checks:
  assumes "lg_voltage_buffer st = Some w" and "w \<noteq> []"
    and "get_value mon (Some (Str b)) ''/Dc/0/Voltage'' = Some bv"
  shows "lg_evaluate mon vp b st =
     (if Min (set w) < float_mul (double_round 0.9) bv \<or> Max (set w) > float_mul (double_round 1.1) bv
      then (case get_item mon vp ''/Mode'' of
              None \<Rightarrow> returns st
            | Some item \<Rightarrow>
                if set_value_raises item
                then raises BusError (st\<lparr>dbusservice := (dbusservice st)(alarm_path \<mapsto> Some (Num 2))\<rparr>)
                else \<lparr>after = st\<lparr>dbusservice := (dbusservice st)(alarm_path \<mapsto> Some (Num 2)),
                                 lg_voltage_buffer := Some []\<rparr>,
                      writes = [SetValue vp ''/Mode'' 4],
                      raised = None\<rparr>)
      else returns st)"
  using assms by (simp add: lg_evaluate_def py_min_Min py_max_Max Let_def split: option.splits)

text \<open>
  C1, as the code has it. Take a tick on which a battery is tracked, the snapshot names an
  inverter service, the battery's current has magnitude at most 0.01 A, and the inverter's
  DC voltage and the battery's DC voltage can be read. Let \<open>W\<close> be the window after the
  inverter's sample is appended (and cut to its last 40). If the monitor holds the
  inverter's mode item and the write to it succeeds, the alarm fires (value 2 published,
  mode set to 4, window emptied) exactly when \<open>W\<close> holds at least 20 samples and its
  minimum is below the float product \<^verbatim>\<open>0.9 * battery_voltage\<close> or its maximum is above the
  float product \<^verbatim>\<open>1.1 * battery_voltage\<close>, each product rounded to a double as Python
  rounds it; when it does not fire, nothing is written and the window is \<open>W\<close>. If the
  monitor holds no mode item for the inverter, no alarm fires whatever the window holds:
  nothing is published or written and the window is \<open>W\<close>.
\<close>

theorem alarm_iff_window_out_of_band:
  assumes "lg_battery st = Some b" and "lg_voltage_buffer st = Some buf"
    and "dict_get nv ''/VebusService'' = Some vp"
    and "get_value mon (Some (Str b)) ''/Dc/0/Current'' = Some i" and "\<bar>i\<bar> \<le> 0.01"
    and "get_value mon (Some vp) ''/Dc/0/Voltage'' = Some v"
    and "get_value mon (Some (Str b)) ''/Dc/0/Voltage'' = Some bv"
  shows "(get_item mon (Some vp) ''/Mode'' = Some item \<and> \<not> set_value_raises item \<longrightarrow>
            (alarm_fired (Some vp) (LgCircuitBreakerDetect_update_values mon nv st)
               \<longleftrightarrow> 20 \<le> length (last40 (buf @ [v]))
                    \<and> (Min (set (last40 (buf @ [v]))) < float_mul (double_round 0.9) bv
                       \<or> Max (set (last40 (buf @ [v]))) > float_mul (double_round 1.1) bv))
            \<and> (\<not> alarm_fired (Some vp) (LgCircuitBreakerDetect_update_values mon nv st) \<longrightarrow>
                 LgCircuitBreakerDetect_update_values mon nv st
                   = returns (st\<lparr>lg_voltage_buffer := Some (last40 (buf @ [v]))\<rparr>))
            \<and> raised (LgCircuitBreakerDetect_update_values mon nv st) = None)
       \<and> (get_item mon (Some vp) ''/Mode'' = None \<longrightarrow>
            \<not> alarm_fired (Some vp) (LgCircuitBreakerDetect_update_values mon nv st)
            \<and> LgCircuitBreakerDetect_update_values mon nv st
                 = returns (st\<lparr>lg_voltage_buffer := Some (last40 (buf @ [v]))\<rparr>))"
proof (cases "length (buf @ [v]) < 20")
  case True
  then have short: "last40 (buf @ [v]) = buf @ [v]"
    by (simp add: last40_short)
  have "LgCircuitBreakerDetect_update_values mon nv st
          = returns (st\<lparr>lg_voltage_buffer := Some (buf @ [v])\<rparr>)"
    using assms(1-6) True update_values_rest [of st b buf nv vp mon i v] by simp
  with True short show ?thesis
    by (simp add: alarm_fired_def returns_def)
next
  case False
  let ?W = "last40 (buf @ [v])"
  let ?st1 = "st\<lparr>lg_voltage_buffer := Some ?W\<rparr>"
  have long: "20 \<le> length ?W"
    using False by (simp add: length_last40)
  have ne: "?W \<noteq> []"
    by (rule last40_not_empty)
  have "LgCircuitBreakerDetect_update_values mon nv st = lg_evaluate mon (Some vp) b ?st1"
    using assms(1-6) False update_values_rest [of st b buf nv vp mon i v] by simp
  also have "\<dots> =
     (if Min (set ?W) < float_mul (double_round 0.9) bv \<or> Max (set ?W) > float_mul (double_round 1.1) bv
      then (case get_item mon (Some vp) ''/Mode'' of
              None \<Rightarrow> returns ?st1
            | Some item \<Rightarrow>
                if set_value_raises item
                then raises BusError (?st1\<lparr>dbusservice := (dbusservice ?st1)(alarm_path \<mapsto> Some (Num 2))\<rparr>)
                else \<lparr>after = ?st1\<lparr>dbusservice := (dbusservice ?st1)(alarm_path \<mapsto> Some (Num 2)),
                                 lg_voltage_buffer := Some []\<rparr>,
                      writes = [SetValue (Some vp) ''/Mode'' 4],
                      raised = None\<rparr>)
      else returns ?st1)"
    using ne assms(7) by (intro lg_evaluate_checks) simp_all
  finally have eq: "LgCircuitBreakerDetect_update_values mon nv st =
     (if Min (set ?W) < float_mul (double_round 0.9) bv \<or> Max (set ?W) > float_mul (double_round 1.1) bv
      then (case get_item mon (Some vp) ''/Mode'' of
              None \<Rightarrow> returns ?st1
            | Some item \<Rightarrow>
                if set_value_raises item
                then raises BusError (?st1\<lparr>dbusservice := (dbusservice ?st1)(alarm_path \<mapsto> Some (Num 2))\<rparr>)
                else \<lparr>after = ?st1\<lparr>dbusservice := (dbusservice ?st1)(alarm_path \<mapsto> Some (Num 2)),
                                 lg_voltage_buffer := Some []\<rparr>,
                      writes = [SetValue (Some vp) ''/Mode'' 4],
                      raised = None\<rparr>)
      else returns ?st1)" .
  have with_item: "get_item mon (Some vp) ''/Mode'' = Some item \<and> \<not> set_value_raises item \<longrightarrow>
            (alarm_fired (Some vp) (LgCircuitBreakerDetect_update_values mon nv st)
               \<longleftrightarrow> 20 \<le> length ?W \<and> (Min (set ?W) < float_mul (double_round 0.9) bv \<or> Max (set ?W) > float_mul (double_round 1.1) bv))
            \<and> (\<not> alarm_fired (Some vp) (LgCircuitBreakerDetect_update_values mon nv st) \<longrightarrow>
                 LgCircuitBreakerDetect_update_values mon nv st = returns ?st1)
            \<and> raised (LgCircuitBreakerDetect_update_values mon nv st) = None"
    unfolding eq using long by (simp add: alarm_fired_def returns_def)
  have without_item: "get_item mon (Some vp) ''/Mode'' = None \<longrightarrow>
            \<not> alarm_fired (Some vp) (LgCircuitBreakerDetect_update_values mon nv st)
            \<and> LgCircuitBreakerDetect_update_values mon nv st = returns ?st1"
    unfolding eq by (simp add: alarm_fired_def returns_def)
  from with_item without_item show ?thesis
    by (rule conjI)
qed

theorem alarm_iff_window_out_of_band_witness:
  "lg_battery lg_rest19 = Some battery_service
   \<and> lg_voltage_buffer lg_rest19 = Some [48, 48, 48, 48, 48, 48, 48, 48, 48, 48, 48, 48, 48, 48, 48, 48, 48, 48, 48]
   \<and> \<bar>0::real\<bar> \<le> 0.01
   \<and> get_item (lg_mon (Some 0) (Some 58) (Some 50) (Some mode_item)) (Some (Str vebus_service))
        ''/Mode'' = Some mode_item
   \<and> \<not> set_value_raises mode_item
   \<and> alarm_fired (Some (Str vebus_service))
        (LgCircuitBreakerDetect_update_values (lg_mon (Some 0) (Some 58) (Some 50) (Some mode_item))
           nv_vebus lg_rest19)
   \<and> \<not> alarm_fired (Some (Str vebus_service))
        (LgCircuitBreakerDetect_update_values (lg_mon (Some 0) (Some 49) (Some 50) (Some mode_item))
           nv_vebus lg_rest19)
   \<and> LgCircuitBreakerDetect_update_values (lg_mon (Some 0) (Some 49) (Some 50) (Some mode_item))
        nv_vebus lg_rest19
      = returns (lg_rest19\<lparr>lg_voltage_buffer := Some [48, 48, 48, 48, 48, 48, 48, 48, 48, 48, 48, 48, 48, 48, 48, 48, 48, 48, 48, 49]\<rparr>)"
proof -
  have b: "lg_battery lg_rest19 = Some battery_service"
    and w: "lg_voltage_buffer lg_rest19 = Some [48, 48, 48, 48, 48, 48, 48, 48, 48, 48, 48, 48, 48, 48, 48, 48, 48, 48, 48]"
    by (simp_all add: lg_rest19_def)
  have vb: "dict_get nv_vebus ''/VebusService'' = Some (Str vebus_service)"
    by (simp add: nv_vebus_def dict_get_def)
  have rest: "\<bar>0::real\<bar> \<le> 0.01"
    by simp
  have item: "get_item (lg_mon (Some 0) v (Some 50) (Some mode_item)) (Some (Str vebus_service))
        ''/Mode'' = Some mode_item" for v
    by (simp add: lg_mon_def)
  have ok: "\<not> set_value_raises mode_item"
    by (simp add: mode_item_def)
  have i: "get_value (lg_mon (Some 0) v (Some 50) (Some mode_item)) (Some (Str battery_service))
        ''/Dc/0/Current'' = Some 0" for v
    by (simp add: lg_mon_def)
  have bv: "get_value (lg_mon (Some 0) v (Some 50) (Some mode_item)) (Some (Str battery_service))
        ''/Dc/0/Voltage'' = Some 50" for v
    by (simp add: lg_mon_def)
  have v: "get_value (lg_mon (Some 0) (Some v) (Some 50) (Some mode_item)) (Some (Str vebus_service))
        ''/Dc/0/Voltage'' = Some v" for v
    by (simp add: lg_mon_def battery_service_def vebus_service_def)
  note high = alarm_iff_window_out_of_band [OF b w vb i rest v bv, of 58 mode_item, THEN conjunct1]
  note calm = alarm_iff_window_out_of_band [OF b w vb i rest v bv, of 49 mode_item, THEN conjunct1]
  have w58: "last40 ([48, 48, 48, 48, 48, 48, 48, 48, 48, 48, 48, 48, 48, 48, 48, 48, 48, 48, 48] @ [58]) = [48, 48, 48, 48, 48, 48, 48, 48, 48, 48, 48, 48, 48, 48, 48, 48, 48, 48, 48, 58]"
    and w49: "last40 ([48, 48, 48, 48, 48, 48, 48, 48, 48, 48, 48, 48, 48, 48, 48, 48, 48, 48, 48] @ [49]) = [48, 48, 48, 48, 48, 48, 48, 48, 48, 48, 48, 48, 48, 48, 48, 48, 48, 48, 48, 49]"
    by (simp_all add: last40_def)
  have fired: "alarm_fired (Some (Str vebus_service))
        (LgCircuitBreakerDetect_update_values (lg_mon (Some 0) (Some 58) (Some 50) (Some mode_item))
           nv_vebus lg_rest19)"
    using high item [of "Some 58"] ok unfolding w58 product_09_50 product_11_50 by simp
  have quiet: "\<not> alarm_fired (Some (Str vebus_service))
        (LgCircuitBreakerDetect_update_values (lg_mon (Some 0) (Some 49) (Some 50) (Some mode_item))
           nv_vebus lg_rest19)"
    using calm item [of "Some 49"] ok unfolding w49 product_09_50 product_11_50 by simp
  have kept: "LgCircuitBreakerDetect_update_values (lg_mon (Some 0) (Some 49) (Some 50) (Some mode_item))
        nv_vebus lg_rest19
      = returns (lg_rest19\<lparr>lg_voltage_buffer := Some [48, 48, 48, 48, 48, 48, 48, 48, 48, 48, 48, 48, 48, 48, 48, 48, 48, 48, 48, 49]\<rparr>)"
    using calm item [of "Some 49"] ok quiet unfolding w49 by simp
  show ?thesis
    by (intro conjI b w rest item ok fired quiet kept)
qed

text \<open>
  The claim as written, that with battery and inverter present and the battery at rest the
  alarm fires whenever the window is long enough and below 90% or above 110% of the
  battery's voltage, fails in two ways. First, when the monitor holds no mode item for the
  inverter: 19 samples of 48.0 V are stored, the inverter reads 10.0 V, the battery reports
  48.0 V. The window then holds 20 samples with minimum 10.0, below 43.2, yet nothing is
  published or written and the window is not emptied. Second, at the threshold itself,
  with the mode item present: 19 samples of 25.0 V are stored, the battery reports 25.0 V
  and the inverter reads the double next above 27.5. That maximum is above 110% of 25, but
  not above the float product \<^verbatim>\<open>1.1 * 25.0\<close>, which is that same double, so no alarm fires.
\<close>

theorem alarm_iff_window_out_of_band_counterexample:
  "lg_battery lg_rest19 = Some battery_service
   \<and> dict_get nv_vebus ''/VebusService'' = Some (Str vebus_service)
   \<and> get_value (lg_mon (Some 0) (Some 10) (Some 48) None) (Some (Str battery_service))
        ''/Dc/0/Current'' = Some 0
   \<and> \<bar>0::real\<bar> \<le> 0.01
   \<and> get_value (lg_mon (Some 0) (Some 10) (Some 48) None) (Some (Str vebus_service))
        ''/Dc/0/Voltage'' = Some 10
   \<and> get_value (lg_mon (Some 0) (Some 10) (Some 48) None) (Some (Str battery_service))
        ''/Dc/0/Voltage'' = Some 48
   \<and> lg_voltage_buffer lg_rest19 = Some [48, 48, 48, 48, 48, 48, 48, 48, 48, 48, 48, 48, 48, 48, 48, 48, 48, 48, 48]
   \<and> 20 \<le> length ([48, 48, 48, 48, 48, 48, 48, 48, 48, 48, 48, 48, 48, 48, 48, 48, 48, 48, 48] @ [10::real])
   \<and> py_min ([48, 48, 48, 48, 48, 48, 48, 48, 48, 48, 48, 48, 48, 48, 48, 48, 48, 48, 48] @ [10]) = Inr 10
   \<and> (10::real) < 0.9 * 48
   \<and> (10::real) < float_mul (double_round 0.9) 48
   \<and> \<not> alarm_fired (Some (Str vebus_service))
        (LgCircuitBreakerDetect_update_values (lg_mon (Some 0) (Some 10) (Some 48) None) nv_vebus lg_rest19)
   \<and> LgCircuitBreakerDetect_update_values (lg_mon (Some 0) (Some 10) (Some 48) None) nv_vebus lg_rest19
      = returns (lg_rest19\<lparr>lg_voltage_buffer := Some [48, 48, 48, 48, 48, 48, 48, 48, 48, 48, 48, 48, 48, 48, 48, 48, 48, 48, 48, 10]\<rparr>)
   \<and> lg_battery lg_level25 = Some battery_service
   \<and> lg_voltage_buffer lg_level25 = Some [25, 25, 25, 25, 25, 25, 25, 25, 25, 25, 25, 25, 25, 25, 25, 25, 25, 25, 25]
   \<and> get_value (lg_mon (Some 0) (Some (7740561859543041 / 2 ^ 48)) (Some 25) (Some mode_item))
        (Some (Str vebus_service)) ''/Dc/0/Voltage'' = Some (7740561859543041 / 2 ^ 48)
   \<and> get_item (lg_mon (Some 0) (Some (7740561859543041 / 2 ^ 48)) (Some 25) (Some mode_item))
        (Some (Str vebus_service)) ''/Mode'' = Some mode_item
   \<and> \<not> set_value_raises mode_item
   \<and> py_max ([25, 25, 25, 25, 25, 25, 25, 25, 25, 25, 25, 25, 25, 25, 25, 25, 25, 25, 25] @ [7740561859543041 / 2 ^ 48]) = Inr (7740561859543041 / 2 ^ 48)
   \<and> (7740561859543041 / 2 ^ 48 :: real) > 1.1 * 25
   \<and> float_mul (double_round 1.1) 25 = 7740561859543041 / 2 ^ 48
   \<and> LgCircuitBreakerDetect_update_values
        (lg_mon (Some 0) (Some (7740561859543041 / 2 ^ 48)) (Some 25) (Some mode_item)) nv_vebus lg_level25
      = returns (lg_level25\<lparr>lg_voltage_buffer := Some [25, 25, 25, 25, 25, 25, 25, 25, 25, 25, 25, 25, 25, 25, 25, 25, 25, 25, 25, 7740561859543041 / 2 ^ 48]\<rparr>)
   \<and> \<not> alarm_fired (Some (Str vebus_service))
        (LgCircuitBreakerDetect_update_values
          (lg_mon (Some 0) (Some (7740561859543041 / 2 ^ 48)) (Some 25) (Some mode_item)) nv_vebus lg_level25)"
proof -
  have no_item: "LgCircuitBreakerDetect_update_values (lg_mon (Some 0) (Some 10) (Some 48) None)
      nv_vebus lg_rest19 = returns (lg_rest19\<lparr>lg_voltage_buffer := Some [48, 48, 48, 48, 48, 48, 48, 48, 48, 48, 48, 48, 48, 48, 48, 48, 48, 48, 48, 10]\<rparr>)"
    by (simp add: lg_rest19_def lg_mon_def nv_vebus_def dict_get_def battery_service_def
        vebus_service_def LgCircuitBreakerDetect_update_values_def lg_evaluate_def py_min_def
        py_max_def returns_def product_09_48 product_11_48)
  have rounded: "LgCircuitBreakerDetect_update_values
        (lg_mon (Some 0) (Some (7740561859543041 / 2 ^ 48)) (Some 25) (Some mode_item)) nv_vebus lg_level25
      = returns (lg_level25\<lparr>lg_voltage_buffer := Some [25, 25, 25, 25, 25, 25, 25, 25, 25, 25, 25, 25, 25, 25, 25, 25, 25, 25, 25, 7740561859543041 / 2 ^ 48]\<rparr>)"
    by (simp add: lg_level25_def lg_mon_def nv_vebus_def dict_get_def battery_service_def
        vebus_service_def LgCircuitBreakerDetect_update_values_def lg_evaluate_def py_min_def
        py_max_def returns_def product_09_25 product_11_25)
  have facts: "lg_battery lg_rest19 = Some battery_service"
    "dict_get nv_vebus ''/VebusService'' = Some (Str vebus_service)"
    "get_value (lg_mon (Some 0) (Some 10) (Some 48) None) (Some (Str battery_service))
        ''/Dc/0/Current'' = Some 0"
    "\<bar>0::real\<bar> \<le> 0.01"
    "get_value (lg_mon (Some 0) (Some 10) (Some 48) None) (Some (Str vebus_service))
        ''/Dc/0/Voltage'' = Some 10"
    "get_value (lg_mon (Some 0) (Some 10) (Some 48) None) (Some (Str battery_service))
        ''/Dc/0/Voltage'' = Some 48"
    "lg_voltage_buffer lg_rest19 = Some [48, 48, 48, 48, 48, 48, 48, 48, 48, 48, 48, 48, 48, 48, 48, 48, 48, 48, 48]"
    "20 \<le> length ([48, 48, 48, 48, 48, 48, 48, 48, 48, 48, 48, 48, 48, 48, 48, 48, 48, 48, 48] @ [10::real])"
    "py_min ([48, 48, 48, 48, 48, 48, 48, 48, 48, 48, 48, 48, 48, 48, 48, 48, 48, 48, 48] @ [10]) = Inr 10"
    "(10::real) < 0.9 * 48"
    "(10::real) < float_mul (double_round 0.9) 48"
    "lg_battery lg_level25 = Some battery_service"
    "lg_voltage_buffer lg_level25 = Some [25, 25, 25, 25, 25, 25, 25, 25, 25, 25, 25, 25, 25, 25, 25, 25, 25, 25, 25]"
    "get_value (lg_mon (Some 0) (Some (7740561859543041 / 2 ^ 48)) (Some 25) (Some mode_item))
        (Some (Str vebus_service)) ''/Dc/0/Voltage'' = Some (7740561859543041 / 2 ^ 48)"
    "get_item (lg_mon (Some 0) (Some (7740561859543041 / 2 ^ 48)) (Some 25) (Some mode_item))
        (Some (Str vebus_service)) ''/Mode'' = Some mode_item"
    "\<not> set_value_raises mode_item"
    "py_max ([25, 25, 25, 25, 25, 25, 25, 25, 25, 25, 25, 25, 25, 25, 25, 25, 25, 25, 25] @ [7740561859543041 / 2 ^ 48]) = Inr (7740561859543041 / 2 ^ 48)"
    "(7740561859543041 / 2 ^ 48 :: real) > 1.1 * 25"
    by (simp_all add: lg_rest19_def lg_level25_def lg_mon_def nv_vebus_def dict_get_def
        battery_service_def vebus_service_def mode_item_def py_min_def py_max_def product_09_48)
  have quiet1: "\<not> alarm_fired (Some (Str vebus_service))
        (LgCircuitBreakerDetect_update_values (lg_mon (Some 0) (Some 10) (Some 48) None) nv_vebus lg_rest19)"
    unfolding no_item by (simp add: alarm_fired_def returns_def)
  have quiet2: "\<not> alarm_fired (Some (Str vebus_service))
        (LgCircuitBreakerDetect_update_values
          (lg_mon (Some 0) (Some (7740561859543041 / 2 ^ 48)) (Some 25) (Some mode_item)) nv_vebus lg_level25)"
    unfolding rounded by (simp add: alarm_fired_def returns_def)
  show ?thesis
    by (intro conjI facts no_item rounded quiet1 quiet2 product_11_25)
qed

section \<open>Timers of the main loop\<close>

lemma timers_of_add:
  "timers_of cb (snd (timeout_add i cb' ml))
     = timers_of cb ml @ (if cb' = cb then [(next_source ml, i)] else [])"
  by (simp add: timers_of_def timeout_add_def)

lemma fresh_add: "fresh_handles ml \<Longrightarrow> fresh_handles (snd (timeout_add i cb ml))"
  by (auto simp: fresh_handles_def timeout_add_def list_all_iff)

lemma timers_of_remove:
  "timers_of cb (source_remove h ml) = filter (\<lambda>t. fst t \<noteq> h) (timers_of cb ml)"
  by (simp add: timers_of_def source_remove_def filter_map comp_def conj_commute)

lemma fresh_remove: "fresh_handles ml \<Longrightarrow> fresh_handles (source_remove h ml)"
  by (auto simp: fresh_handles_def source_remove_def list_all_iff)

lemma timeout_add_handle: "fst (timeout_add i cb ml) = next_source ml"
  by (simp add: timeout_add_def)

section \<open>The charger synchronizer's timer\<close>

lemma update_charger_raises:
  "snd (update_charger mon cv state s) = None \<or> snd (update_charger mon cv state s) = Some AttributeError"
  by (simp add: update_charger_def Let_def split: option.splits)

lemma update_loop_raises:
  "snd (update_loop mon spv cv state cs) = None
   \<or> snd (update_loop mon spv cv state cs) = Some AttributeError"
proof (induction cs)
  case Nil
  then show ?case by simp
next
  case (Cons c cs)
  with update_charger_raises [of mon cv state c] show ?case
    by (auto split: prod.splits option.splits)
qed

lemma update_solarchargers_raises:
  "snd (Hub1Bridge_update_solarchargers mon so spv st) = None
   \<or> snd (Hub1Bridge_update_solarchargers mon so spv st) = Some AttributeError"
  using update_loop_raises
  by (simp add: Hub1Bridge_update_solarchargers_def split: option.splits)

text \<open>What \<^verbatim>\<open>device_added\<close> leaves behind when it returns.\<close>

lemma device_added_returns:
  assumes "raised (Hub1Bridge_device_added mon so spv s st) = None"
  shows "after (Hub1Bridge_device_added mon so spv s st) =
     (if service_type s = Inr ''solarcharger''
      then (if hub1_timer st = None
            then st\<lparr>solarchargers := solarchargers st @ [s],
                    hub1_timer := Some (next_source (hub1_loop st)),
                    hub1_loop := snd (timeout_add 10000 Hub1Bridge_on_timer (hub1_loop st))\<rparr>
            else st\<lparr>solarchargers := solarchargers st @ [s]\<rparr>)
      else st)"
  using assms
  by (auto simp: Hub1Bridge_device_added_def Let_def returns_def raises_def timeout_add_def
      split: sum.splits prod.splits option.splits)

lemma device_added_index_error:
  assumes "raised (Hub1Bridge_device_added mon so spv s st) = Some IndexError"
  shows "after (Hub1Bridge_device_added mon so spv s st) = st"
proof (cases "service_type s")
  case (Inl e)
  then show ?thesis by (simp add: Hub1Bridge_device_added_def raises_def)
next
  case (Inr t)
  show ?thesis
  proof (cases "t = ''solarcharger''")
    case False
    with Inr show ?thesis by (simp add: Hub1Bridge_device_added_def returns_def)
  next
    case True
    let ?st1 = "st\<lparr>solarchargers := solarchargers st @ [s]\<rparr>"
    from update_solarchargers_raises [of mon so spv ?st1] assms Inr True have False
      by (auto simp: Hub1Bridge_device_added_def Let_def split: prod.splits option.splits if_splits)
    then show ?thesis ..
  qed
qed

lemma device_added_keeps:
  assumes "timer_iff_charger st" and "raised (Hub1Bridge_device_added mon so spv s st) = None"
  shows "timer_iff_charger (after (Hub1Bridge_device_added mon so spv s st))"
  using assms(1) unfolding device_added_returns [OF assms(2)]
  by (auto simp: timer_iff_charger_def timers_of_add fresh_add split: option.splits)

lemma device_removed_keeps:
  assumes "timer_iff_charger st"
  shows "timer_iff_charger (Hub1Bridge_device_removed s st)"
  using assms
  by (auto simp: timer_iff_charger_def Hub1Bridge_device_removed_def Let_def timers_of_remove
      fresh_remove split: option.splits)

lemma hub1_run_keeps:
  "timer_iff_charger st \<Longrightarrow> hub1_calls_return st es \<Longrightarrow> timer_iff_charger (hub1_run st es)"
proof (induction es arbitrary: st)
  case Nil
  then show ?case by simp
next
  case (Cons e es)
  show ?case
  proof (cases e)
    case (Hub1Added mon so spv s)
    with Cons.prems have r: "raised (Hub1Bridge_device_added mon so spv s st) = None
        \<or> raised (Hub1Bridge_device_added mon so spv s st) = Some IndexError"
      and rest: "hub1_calls_return (after (Hub1Bridge_device_added mon so spv s st)) es"
      by simp_all
    from r Cons.prems(1) have "timer_iff_charger (after (Hub1Bridge_device_added mon so spv s st))"
      by (auto simp: device_added_keeps device_added_index_error)
    with rest Hub1Added Cons.IH show ?thesis by simp
  next
    case (Hub1Removed s)
    with Cons.prems have "hub1_calls_return (Hub1Bridge_device_removed s st) es"
      by simp
    moreover from Cons.prems(1) have "timer_iff_charger (Hub1Bridge_device_removed s st)"
      by (rule device_removed_keeps)
    ultimately show ?thesis using Hub1Removed Cons.IH by simp
  qed
qed

text \<open>
  What the bridge keeps. With no timer of the bridge in the main loop at the start, the
  bridge's repeating timer (period 10 s) exists exactly when the list of known solar
  chargers is not empty: this holds for the new bridge, is kept by every
  \<^verbatim>\<open>device_removed\<close> call and by every \<^verbatim>\<open>device_added\<close> call that returns (a call stopped
  by \<^verbatim>\<open>IndexError\<close> on the service name changes nothing), and so holds after every such
  call of a run. The timer is created by the call that adds the first charger, and a
  \<^verbatim>\<open>device_removed\<close> call cancels it exactly when it removes the last known charger.
\<close>

lemma timer_exists_iff_charger_known:
  "(timers_of Hub1Bridge_on_timer ml = [] \<and> fresh_handles ml \<longrightarrow>
      timer_iff_charger (Hub1Bridge_init ml))
   \<and> (timer_iff_charger st \<and> raised (Hub1Bridge_device_added mon so spv s st) = None \<longrightarrow>
      timer_iff_charger (after (Hub1Bridge_device_added mon so spv s st)))
   \<and> (raised (Hub1Bridge_device_added mon so spv s st) = Some IndexError \<longrightarrow>
      after (Hub1Bridge_device_added mon so spv s st) = st)
   \<and> (timer_iff_charger st \<longrightarrow> timer_iff_charger (Hub1Bridge_device_removed s st))
   \<and> (timer_iff_charger st \<and> solarchargers st = [] \<and> service_type s = Inr ''solarcharger''
        \<and> raised (Hub1Bridge_device_added mon so spv s st) = None \<longrightarrow>
      hub1_timer st = None
      \<and> hub1_timer (after (Hub1Bridge_device_added mon so spv s st)) = Some (next_source (hub1_loop st))
      \<and> timers_of Hub1Bridge_on_timer (hub1_loop (after (Hub1Bridge_device_added mon so spv s st)))
          = [(next_source (hub1_loop st), 10000)])
   \<and> (timer_iff_charger st \<longrightarrow>
        (hub1_timer st \<noteq> None \<and> hub1_timer (Hub1Bridge_device_removed s st) = None
           \<longleftrightarrow> s \<in> set (solarchargers st) \<and> remove1 s (solarchargers st) = []))
   \<and> (timers_of Hub1Bridge_on_timer ml = [] \<and> fresh_handles ml
        \<and> hub1_calls_return (Hub1Bridge_init ml) es \<longrightarrow>
      timer_iff_charger (hub1_run (Hub1Bridge_init ml) es))"
proof -
  have start: "timer_iff_charger (Hub1Bridge_init ml)"
    if "timers_of Hub1Bridge_on_timer ml = [] \<and> fresh_handles ml"
    using that by (simp add: timer_iff_charger_def Hub1Bridge_init_def)
  have added: "timer_iff_charger (after (Hub1Bridge_device_added mon so spv s st))"
    if "timer_iff_charger st \<and> raised (Hub1Bridge_device_added mon so spv s st) = None"
    using that by (simp add: device_added_keeps)
  have stopped: "after (Hub1Bridge_device_added mon so spv s st) = st"
    if "raised (Hub1Bridge_device_added mon so spv s st) = Some IndexError"
    using that by (rule device_added_index_error)
  have removed: "timer_iff_charger (Hub1Bridge_device_removed s st)" if "timer_iff_charger st"
    using that by (rule device_removed_keeps)
  have first: "hub1_timer st = None
      \<and> hub1_timer (after (Hub1Bridge_device_added mon so spv s st)) = Some (next_source (hub1_loop st))
      \<and> timers_of Hub1Bridge_on_timer (hub1_loop (after (Hub1Bridge_device_added mon so spv s st)))
          = [(next_source (hub1_loop st), 10000)]"
    if h: "timer_iff_charger st \<and> solarchargers st = [] \<and> service_type s = Inr ''solarcharger''
        \<and> raised (Hub1Bridge_device_added mon so spv s st) = None"
  proof -
    from h have none: "hub1_timer st = None" and empty: "timers_of Hub1Bridge_on_timer (hub1_loop st) = []"
      by (auto simp: timer_iff_charger_def)
    from h have r: "raised (Hub1Bridge_device_added mon so spv s st) = None"
      by simp
    show ?thesis
      unfolding device_added_returns [OF r] using h none empty by (simp add: timers_of_add)
  qed
  have last: "hub1_timer st \<noteq> None \<and> hub1_timer (Hub1Bridge_device_removed s st) = None
           \<longleftrightarrow> s \<in> set (solarchargers st) \<and> remove1 s (solarchargers st) = []"
    if "timer_iff_charger st"
    using that
    by (auto simp: timer_iff_charger_def Hub1Bridge_device_removed_def Let_def
        split: option.splits)
  have run: "timer_iff_charger (hub1_run (Hub1Bridge_init ml) es)"
    if "timers_of Hub1Bridge_on_timer ml = [] \<and> fresh_handles ml
        \<and> hub1_calls_return (Hub1Bridge_init ml) es"
    using that start by (intro hub1_run_keeps) simp_all
  from start added stopped removed first last run show ?thesis
    by (intro conjI impI) (assumption | simp)+
qed

lemma timer_exists_iff_charger_known_at_one_charger:
  "timers_of Hub1Bridge_on_timer empty_loop = [] \<and> fresh_handles empty_loop
   \<and> Hub1Bridge_device_added charger_mon system_service ServiceSupervisor_init charger_service
       (Hub1Bridge_init empty_loop)
     = \<lparr>after = \<lparr>solarchargers = [charger_service], hub1_timer = Some 1,
                 hub1_loop = \<lparr>next_source = 2, sources = [(1, 10000, Hub1Bridge_on_timer)]\<rparr>\<rparr>,
        writes = [SetValue (Some (Str charger_service)) ''/Link/NetworkMode'' 5,
                  SetValue (Some (Str charger_service)) ''/Link/ChargeVoltage'' 57.6,
                  SetValue (Some (Str charger_service)) ''/State'' 3],
        raised = None\<rparr>
   \<and> timer_iff_charger (Hub1Bridge_init empty_loop)
   \<and> timer_iff_charger (after (Hub1Bridge_device_added charger_mon system_service
        ServiceSupervisor_init charger_service (Hub1Bridge_init empty_loop)))
   \<and> timer_iff_charger (hub1_run (Hub1Bridge_init empty_loop)
        [Hub1Added charger_mon system_service ServiceSupervisor_init charger_service,
         Hub1Removed charger_service])
   \<and> hub1_run (Hub1Bridge_init empty_loop)
        [Hub1Added charger_mon system_service ServiceSupervisor_init charger_service,
         Hub1Removed charger_service]
     = \<lparr>solarchargers = [], hub1_timer = None, hub1_loop = \<lparr>next_source = 2, sources = []\<rparr>\<rparr>"
proof -
  have l: "timers_of Hub1Bridge_on_timer empty_loop = [] \<and> fresh_handles empty_loop"
    by (simp add: timers_of_def fresh_handles_def empty_loop_def)
  have ty: "service_type charger_service = Inr ''solarcharger''"
    by (simp add: service_type_def charger_service_def)
  have fw: "\<lfloor>0x0117 :: real\<rfloor> mod 4096 = 0x0117"
    by simp
  have add: "Hub1Bridge_device_added charger_mon system_service ServiceSupervisor_init charger_service
       (Hub1Bridge_init empty_loop)
     = \<lparr>after = \<lparr>solarchargers = [charger_service], hub1_timer = Some 1,
                 hub1_loop = \<lparr>next_source = 2, sources = [(1, 10000, Hub1Bridge_on_timer)]\<rparr>\<rparr>,
        writes = [SetValue (Some (Str charger_service)) ''/Link/NetworkMode'' 5,
                  SetValue (Some (Str charger_service)) ''/Link/ChargeVoltage'' 57.6,
                  SetValue (Some (Str charger_service)) ''/State'' 3],
        raised = None\<rparr>"
    using ty fw
    by (simp add: Hub1Bridge_device_added_def Hub1Bridge_init_def Hub1Bridge_update_solarchargers_def
        update_charger_def get_vebus_path_def system_service_def charger_mon_def is_busy_def
        ServiceSupervisor_init_def timeout_add_def empty_loop_def vebus_service_def
        charger_service_def Let_def numeral_2_eq_2)
  then have r: "raised (Hub1Bridge_device_added charger_mon system_service ServiceSupervisor_init
      charger_service (Hub1Bridge_init empty_loop)) = None"
    by simp
  have ret: "hub1_calls_return (Hub1Bridge_init empty_loop)
        [Hub1Added charger_mon system_service ServiceSupervisor_init charger_service,
         Hub1Removed charger_service]"
    using r by simp
  have fin: "hub1_run (Hub1Bridge_init empty_loop)
        [Hub1Added charger_mon system_service ServiceSupervisor_init charger_service,
         Hub1Removed charger_service]
     = \<lparr>solarchargers = [], hub1_timer = None, hub1_loop = \<lparr>next_source = 2, sources = []\<rparr>\<rparr>"
    by (simp add: add Hub1Bridge_device_removed_def source_remove_def)
  note inst = timer_exists_iff_charger_known
    [where ml = empty_loop and st = "Hub1Bridge_init empty_loop" and mon = charger_mon
       and so = system_service and spv = ServiceSupervisor_init and s = charger_service
       and es = "[Hub1Added charger_mon system_service ServiceSupervisor_init charger_service,
                  Hub1Removed charger_service]"]
  note c1 = inst [THEN conjunct1]
  note c2 = inst [THEN conjunct2, THEN conjunct1]
  note c7 = inst [THEN conjunct2, THEN conjunct2, THEN conjunct2, THEN conjunct2,
      THEN conjunct2, THEN conjunct2]
  from c1 l have i0: "timer_iff_charger (Hub1Bridge_init empty_loop)"
    by (rule mp)
  have prem2: "timer_iff_charger (Hub1Bridge_init empty_loop)
      \<and> raised (Hub1Bridge_device_added charger_mon system_service ServiceSupervisor_init
           charger_service (Hub1Bridge_init empty_loop)) = None"
    by (intro conjI i0 r)
  from c2 prem2 have i1: "timer_iff_charger (after (Hub1Bridge_device_added charger_mon system_service
        ServiceSupervisor_init charger_service (Hub1Bridge_init empty_loop)))"
    by (rule mp)
  from l have l1: "timers_of Hub1Bridge_on_timer empty_loop = []" and l2: "fresh_handles empty_loop"
    by simp_all
  have prem: "timers_of Hub1Bridge_on_timer empty_loop = [] \<and> fresh_handles empty_loop
      \<and> hub1_calls_return (Hub1Bridge_init empty_loop)
        [Hub1Added charger_mon system_service ServiceSupervisor_init charger_service,
         Hub1Removed charger_service]"
    by (intro conjI l1 l2 ret)
  from c7 prem have i2: "timer_iff_charger (hub1_run (Hub1Bridge_init empty_loop)
        [Hub1Added charger_mon system_service ServiceSupervisor_init charger_service,
         Hub1Removed charger_service])"
    by (rule mp)
  show ?thesis
    by (intro conjI l1 l2 add i0 i1 i2 fin)
qed

text \<open>
  C7. The timer is to exist exactly when a solar charger is known, after every
  \<^verbatim>\<open>device_added\<close> and \<^verbatim>\<open>device_removed\<close> call. One kind of \<^verbatim>\<open>device_added\<close> call breaks
  this. A solar charger appears at a new bridge, in a Hub-1 system, and the monitor holds
  no item for its \<^verbatim>\<open>/Link/NetworkMode\<close>. Line 119 has appended the charger when line 153
  calls \<^verbatim>\<open>get_value\<close> on \<^verbatim>\<open>None\<close>; the \<^verbatim>\<open>AttributeError\<close> is not a \<^verbatim>\<open>DBusException\<close>, so
  line 161 does not catch it, and the call ends before line 124 creates the timer. The
  property held before the call; after it one charger is known and no timer exists, in
  the object or in the main loop.
\<close>

theorem device_added_without_item_leaves_no_timer:
  "timer_iff_charger (Hub1Bridge_init empty_loop)
   \<and> Hub1Bridge_device_added no_item_mon system_service ServiceSupervisor_init charger_service
       (Hub1Bridge_init empty_loop)
     = \<lparr>after = \<lparr>solarchargers = [charger_service], hub1_timer = None, hub1_loop = empty_loop\<rparr>,
        writes = [], raised = Some AttributeError\<rparr>
   \<and> timers_of Hub1Bridge_on_timer (hub1_loop (after (Hub1Bridge_device_added no_item_mon
       system_service ServiceSupervisor_init charger_service (Hub1Bridge_init empty_loop)))) = []
   \<and> \<not> timer_iff_charger (after (Hub1Bridge_device_added no_item_mon system_service
       ServiceSupervisor_init charger_service (Hub1Bridge_init empty_loop)))"
proof -
  have ty: "service_type charger_service = Inr ''solarcharger''"
    by (simp add: service_type_def charger_service_def)
  have start: "timer_iff_charger (Hub1Bridge_init empty_loop)"
    by (simp add: timer_iff_charger_def Hub1Bridge_init_def timers_of_def fresh_handles_def
        empty_loop_def)
  have call: "Hub1Bridge_device_added no_item_mon system_service ServiceSupervisor_init
       charger_service (Hub1Bridge_init empty_loop)
     = \<lparr>after = \<lparr>solarchargers = [charger_service], hub1_timer = None, hub1_loop = empty_loop\<rparr>,
        writes = [], raised = Some AttributeError\<rparr>"
    using ty
    by (simp add: Hub1Bridge_device_added_def Hub1Bridge_init_def Hub1Bridge_update_solarchargers_def
        update_charger_def get_vebus_path_def system_service_def no_item_mon_def is_busy_def
        ServiceSupervisor_init_def vebus_service_def charger_service_def Let_def)
  have loop: "timers_of Hub1Bridge_on_timer (hub1_loop (after (Hub1Bridge_device_added no_item_mon
       system_service ServiceSupervisor_init charger_service (Hub1Bridge_init empty_loop)))) = []"
    unfolding call by (simp add: timers_of_def empty_loop_def)
  have broken: "\<not> timer_iff_charger (after (Hub1Bridge_device_added no_item_mon system_service
       ServiceSupervisor_init charger_service (Hub1Bridge_init empty_loop)))"
    unfolding call by (simp add: timer_iff_charger_def)
  show ?thesis
    by (intro conjI start call loop broken)
qed

section \<open>The buzzer's blink timer\<close>

lemma set_buzzer_frame:
  "buzzer_timer (BuzzerControl_set_buzzer on ok st) = buzzer_timer st
   \<and> buzzer_loop (BuzzerControl_set_buzzer on ok st) = buzzer_loop st"
  by (simp add: BuzzerControl_set_buzzer_def)

lemma state_changed_on:
  "BuzzerControl_on_buzzer_state_changed (Num 1) ok st =
     (if buzzer_timer st = None
      then BuzzerControl_set_buzzer True ok
             (st\<lparr>buzzer_timer := Some (next_source (buzzer_loop st)),
                 buzzer_loop := snd (timeout_add 500 BuzzerControl_on_timer (buzzer_loop st))\<rparr>)
      else st)"
  by (simp add: BuzzerControl_on_buzzer_state_changed_def timeout_add_def)

lemma state_changed_consistent:
  assumes "buzzer_consistent st"
  shows "buzzer_consistent (BuzzerControl_on_buzzer_state_changed val ok st)"
proof (cases "val = Num 1")
  case True
  with assms show ?thesis
    by (simp add: state_changed_on buzzer_consistent_def buzzer_timers_def set_buzzer_frame
        timers_of_add fresh_add)
next
  case False
  with assms show ?thesis
    by (simp add: BuzzerControl_on_buzzer_state_changed_def buzzer_consistent_def
        buzzer_timers_def set_buzzer_frame timers_of_remove fresh_remove split: option.splits)
qed

lemma timer_fired_consistent:
  "buzzer_consistent st \<Longrightarrow> buzzer_consistent (BuzzerControl_timer_fired ok st)"
  by (simp add: buzzer_consistent_def buzzer_timers_def BuzzerControl_timer_fired_def set_buzzer_frame)

lemma set_sources_consistent:
  "timers_of BuzzerControl_on_timer ml = [] \<Longrightarrow> fresh_handles ml \<Longrightarrow>
   BuzzerControl_set_sources paths ml content = Some st \<Longrightarrow> buzzer_consistent st"
  by (auto simp: BuzzerControl_set_sources_def buzzer_consistent_def buzzer_timers_def
      split: if_splits)

lemma on_then_timer:
  "buzzer_timer (BuzzerControl_on_buzzer_state_changed (Num 1) ok st) \<noteq> None"
  by (simp add: state_changed_on set_buzzer_frame)

lemma off_when_timer:
  assumes "buzzer_timer st = Some h"
  shows "BuzzerControl_on_buzzer_state_changed (Num 0) ok st =
     BuzzerControl_set_buzzer False ok
       (st\<lparr>buzzer_loop := source_remove h (buzzer_loop st), buzzer_timer := None\<rparr>)"
  using assms by (simp add: BuzzerControl_on_buzzer_state_changed_def)

text \<open>
  C8, as the code has it. Start from any state of the buzzer in which the main loop holds
  exactly the timer the object refers to (as in every state the delegate reaches), write 1
  and then 0. After that the main loop holds no timer of the buzzer and the object refers
  to none. The second call goes on to write the file: if that write succeeds, the file
  holds \<^verbatim>\<open>0\<close> and the buzzer is recorded as off; if it fails, the \<^verbatim>\<open>IOError\<close> is caught and
  the file and the recorded state stay as the write of 1 left them. After the write of 1
  there is exactly one timer of the buzzer, whether or not one existed before; a write of 1
  while the timer exists changes nothing at all.
\<close>

theorem buzzer_one_then_zero:
  assumes "buzzer_consistent st"
  shows "buzzer_timers (BuzzerControl_on_buzzer_state_changed (Num 0) ok2
            (BuzzerControl_on_buzzer_state_changed (Num 1) ok1 st)) = []
       \<and> buzzer_timer (BuzzerControl_on_buzzer_state_changed (Num 0) ok2
            (BuzzerControl_on_buzzer_state_changed (Num 1) ok1 st)) = None
       \<and> (ok2 \<longrightarrow>
            buzzer_file (BuzzerControl_on_buzzer_state_changed (Num 0) ok2
              (BuzzerControl_on_buzzer_state_changed (Num 1) ok1 st)) = ''0''
            \<and> \<not> buzzer_on (BuzzerControl_on_buzzer_state_changed (Num 0) ok2
              (BuzzerControl_on_buzzer_state_changed (Num 1) ok1 st)))
       \<and> (\<not> ok2 \<longrightarrow>
            buzzer_file (BuzzerControl_on_buzzer_state_changed (Num 0) ok2
              (BuzzerControl_on_buzzer_state_changed (Num 1) ok1 st))
              = buzzer_file (BuzzerControl_on_buzzer_state_changed (Num 1) ok1 st)
            \<and> buzzer_on (BuzzerControl_on_buzzer_state_changed (Num 0) ok2
              (BuzzerControl_on_buzzer_state_changed (Num 1) ok1 st))
              = buzzer_on (BuzzerControl_on_buzzer_state_changed (Num 1) ok1 st))
       \<and> length (buzzer_timers (BuzzerControl_on_buzzer_state_changed (Num 1) ok1 st)) = 1
       \<and> (buzzer_timer st \<noteq> None \<longrightarrow> BuzzerControl_on_buzzer_state_changed (Num 1) ok1 st = st)"
proof -
  let ?st1 = "BuzzerControl_on_buzzer_state_changed (Num 1) ok1 st"
  let ?st2 = "BuzzerControl_on_buzzer_state_changed (Num 0) ok2 ?st1"
  have c1: "buzzer_consistent ?st1"
    using assms by (rule state_changed_consistent)
  then have c2: "buzzer_consistent ?st2"
    by (rule state_changed_consistent)
  obtain h where h: "buzzer_timer ?st1 = Some h"
    using on_then_timer [of ok1 st] by auto
  have eq: "?st2 = BuzzerControl_set_buzzer False ok2
       (?st1\<lparr>buzzer_loop := source_remove h (buzzer_loop ?st1), buzzer_timer := None\<rparr>)"
    using h by (rule off_when_timer)
  have t2: "buzzer_timer ?st2 = None"
    unfolding eq by (simp add: set_buzzer_frame)
  with c2 have none: "buzzer_timers ?st2 = []"
    by (simp add: buzzer_consistent_def)
  have off: "ok2 \<longrightarrow> buzzer_file ?st2 = ''0'' \<and> \<not> buzzer_on ?st2"
    unfolding eq by (simp add: BuzzerControl_set_buzzer_def)
  have kept: "\<not> ok2 \<longrightarrow> buzzer_file ?st2 = buzzer_file ?st1 \<and> buzzer_on ?st2 = buzzer_on ?st1"
    unfolding eq by (simp add: BuzzerControl_set_buzzer_def)
  have one: "length (buzzer_timers ?st1) = 1"
    using c1 h by (simp add: buzzer_consistent_def)
  have same: "buzzer_timer st \<noteq> None \<longrightarrow> ?st1 = st"
    by (simp add: BuzzerControl_on_buzzer_state_changed_def)
  from none t2 off kept one same show ?thesis
    by (intro conjI)
qed

theorem buzzer_one_then_zero_witness:
  "buzzer_consistent buzzer_idle
   \<and> BuzzerControl_on_buzzer_state_changed (Num 1) True buzzer_idle
     = \<lparr>buzzer_on = True, buzzer_timer = Some 1,
        buzzer_loop = \<lparr>next_source = 2, sources = [(1, 500, BuzzerControl_on_timer)]\<rparr>,
        buzzer_file = ''1''\<rparr>
   \<and> BuzzerControl_on_buzzer_state_changed (Num 0) True
       (BuzzerControl_on_buzzer_state_changed (Num 1) True buzzer_idle)
     = \<lparr>buzzer_on = False, buzzer_timer = None,
        buzzer_loop = \<lparr>next_source = 2, sources = []\<rparr>, buzzer_file = ''0''\<rparr>
   \<and> buzzer_timers (BuzzerControl_on_buzzer_state_changed (Num 0) True
       (BuzzerControl_on_buzzer_state_changed (Num 1) True buzzer_idle)) = []
   \<and> buzzer_file (BuzzerControl_on_buzzer_state_changed (Num 0) True
       (BuzzerControl_on_buzzer_state_changed (Num 1) True buzzer_idle)) = ''0''
   \<and> BuzzerControl_on_buzzer_state_changed (Num 1) True
       (BuzzerControl_on_buzzer_state_changed (Num 1) True buzzer_idle)
     = BuzzerControl_on_buzzer_state_changed (Num 1) True buzzer_idle"
proof -
  have c: "buzzer_consistent buzzer_idle"
    by (simp add: buzzer_consistent_def buzzer_timers_def timers_of_def fresh_handles_def
        buzzer_idle_def empty_loop_def)
  have on: "BuzzerControl_on_buzzer_state_changed (Num 1) True buzzer_idle
     = \<lparr>buzzer_on = True, buzzer_timer = Some 1,
        buzzer_loop = \<lparr>next_source = 2, sources = [(1, 500, BuzzerControl_on_timer)]\<rparr>,
        buzzer_file = ''1''\<rparr>"
    by (simp add: BuzzerControl_on_buzzer_state_changed_def BuzzerControl_set_buzzer_def
        timeout_add_def buzzer_idle_def empty_loop_def numeral_2_eq_2)
  have off: "BuzzerControl_on_buzzer_state_changed (Num 0) True
       (BuzzerControl_on_buzzer_state_changed (Num 1) True buzzer_idle)
     = \<lparr>buzzer_on = False, buzzer_timer = None,
        buzzer_loop = \<lparr>next_source = 2, sources = []\<rparr>, buzzer_file = ''0''\<rparr>"
    unfolding on
    by (simp add: BuzzerControl_on_buzzer_state_changed_def BuzzerControl_set_buzzer_def
        source_remove_def)
  note inst = buzzer_one_then_zero [OF c, of True True]
  note none = inst [THEN conjunct1]
  note f0 = inst [THEN conjunct2, THEN conjunct2, THEN conjunct1, rule_format, THEN conjunct1]
  have c1: "buzzer_consistent (BuzzerControl_on_buzzer_state_changed (Num 1) True buzzer_idle)"
    using c by (rule state_changed_consistent)
  note again = buzzer_one_then_zero [OF c1, of True True, THEN conjunct2, THEN conjunct2,
      THEN conjunct2, THEN conjunct2, THEN conjunct2]
  have twice: "BuzzerControl_on_buzzer_state_changed (Num 1) True
       (BuzzerControl_on_buzzer_state_changed (Num 1) True buzzer_idle)
     = BuzzerControl_on_buzzer_state_changed (Num 1) True buzzer_idle"
    using again on_then_timer [of True buzzer_idle] by simp
  have f: "buzzer_file (BuzzerControl_on_buzzer_state_changed (Num 0) True
       (BuzzerControl_on_buzzer_state_changed (Num 1) True buzzer_idle)) = ''0''"
    using f0 by simp
  show ?thesis
    by (intro conjI c on off none f twice)
qed

text \<open>
  The claim as written, that writing 1 and then 0 leaves the hardware output written off,
  fails when the second write of the file fails: the timer has been removed and forgotten
  before the write is tried, the file still holds \<^verbatim>\<open>1\<close> and the buzzer is still recorded as
  on. A further write of 0 finds no timer and does nothing.
\<close>

theorem buzzer_one_then_zero_counterexample:
  "buzzer_consistent buzzer_idle
   \<and> BuzzerControl_on_buzzer_state_changed (Num 0) False
       (BuzzerControl_on_buzzer_state_changed (Num 1) True buzzer_idle)
     = \<lparr>buzzer_on = True, buzzer_timer = None,
        buzzer_loop = \<lparr>next_source = 2, sources = []\<rparr>, buzzer_file = ''1''\<rparr>
   \<and> buzzer_file (BuzzerControl_on_buzzer_state_changed (Num 0) False
       (BuzzerControl_on_buzzer_state_changed (Num 1) True buzzer_idle)) \<noteq> ''0''
   \<and> BuzzerControl_on_buzzer_state_changed (Num 0) True
       (BuzzerControl_on_buzzer_state_changed (Num 0) False
         (BuzzerControl_on_buzzer_state_changed (Num 1) True buzzer_idle))
     = \<lparr>buzzer_on = True, buzzer_timer = None,
        buzzer_loop = \<lparr>next_source = 2, sources = []\<rparr>, buzzer_file = ''1''\<rparr>"
proof -
  have c: "buzzer_consistent buzzer_idle"
    by (simp add: buzzer_consistent_def buzzer_timers_def timers_of_def fresh_handles_def
        buzzer_idle_def empty_loop_def)
  have on: "BuzzerControl_on_buzzer_state_changed (Num 1) True buzzer_idle
     = \<lparr>buzzer_on = True, buzzer_timer = Some 1,
        buzzer_loop = \<lparr>next_source = 2, sources = [(1, 500, BuzzerControl_on_timer)]\<rparr>,
        buzzer_file = ''1''\<rparr>"
    by (simp add: BuzzerControl_on_buzzer_state_changed_def BuzzerControl_set_buzzer_def
        timeout_add_def buzzer_idle_def empty_loop_def numeral_2_eq_2)
  have failed: "BuzzerControl_on_buzzer_state_changed (Num 0) False
       (BuzzerControl_on_buzzer_state_changed (Num 1) True buzzer_idle)
     = \<lparr>buzzer_on = True, buzzer_timer = None,
        buzzer_loop = \<lparr>next_source = 2, sources = []\<rparr>, buzzer_file = ''1''\<rparr>"
    unfolding on
    by (simp add: BuzzerControl_on_buzzer_state_changed_def BuzzerControl_set_buzzer_def
        source_remove_def)
  have still: "buzzer_file (BuzzerControl_on_buzzer_state_changed (Num 0) False
       (BuzzerControl_on_buzzer_state_changed (Num 1) True buzzer_idle)) \<noteq> ''0''"
    unfolding failed by simp
  have later: "BuzzerControl_on_buzzer_state_changed (Num 0) True
       (BuzzerControl_on_buzzer_state_changed (Num 0) False
         (BuzzerControl_on_buzzer_state_changed (Num 1) True buzzer_idle))
     = \<lparr>buzzer_on = True, buzzer_timer = None,
        buzzer_loop = \<lparr>next_source = 2, sources = []\<rparr>, buzzer_file = ''1''\<rparr>"
    unfolding failed by (simp add: BuzzerControl_on_buzzer_state_changed_def)
  show ?thesis
    by (intro conjI c failed still later)
qed

end
